theory Spec2Isabelle
  imports Main "HOL-Library.Sublist"
begin

section \<open>JavaScript values\<close>

text \<open>
  \<open>req.body\<close> after \<open>express.json()\<close> is a JSON value, or \<open>undefined\<close> (\<open>None\<close>) when no
  body was parsed.  An object, as \<open>JSON.parse\<close> builds it, is the list of its own
  properties in enumeration order (\<open>Object.keys\<close>), with distinct keys.  A string is the list
  of its code units, so \<open>length\<close> is JavaScript's \<open>.length\<close>; a code unit is a \<open>char\<close>, which
  covers the code units below 256.  The server compares strings with ASCII text, measures
  their length and trims white space, and does nothing else with a code unit.  The payload
  of a number is never inspected by the server.
\<close>

datatype json =
    JNull
  | JBool bool
  | JNum int
  | JStr string
  | JArr "json list"
  | JObj "(string \<times> json) list"


text \<open>
  Before it validates an object, the validation library copies it with
  \<open>Object.create(Object.getPrototypeOf(value))\<close> and \<open>Object.assign(clone, value)\<close>, and
  works on the copy.  Assigning the key \<open>__proto__\<close> does not create a property: it sets
  the prototype of the copy.  So the copy has the other properties of the body as its own
  (\<open>own_props\<close>), in their order, and, when the value of \<open>__proto__\<close> is an object, it
  inherits the properties of that object (\<open>proto_props\<close>).  An array, \<open>null\<close> or
  \<open>Object.prototype\<close> in that place brings no property that the schema names.
  \<open>value[key]\<close>, for a key other than \<open>__proto__\<close>, reads an own property first and an
  inherited one otherwise; a property that is absent gives \<open>undefined\<close>, here \<open>None\<close>.
\<close>

definition own_props :: "(string \<times> json) list \<Rightarrow> (string \<times> json) list" where
  "own_props kvs = filter (\<lambda>(k, x). k \<noteq> ''__proto__'') kvs"

definition proto_props :: "(string \<times> json) list \<Rightarrow> (string \<times> json) list" where
  "proto_props kvs = (case map_of kvs ''__proto__'' of Some (JObj inner) \<Rightarrow> inner | _ \<Rightarrow> [])"

definition get_prop :: "(string \<times> json) list \<Rightarrow> string \<Rightarrow> json option" where
  "get_prop kvs k =
    (case map_of (own_props kvs) k of Some x \<Rightarrow> Some x | None \<Rightarrow> map_of (proto_props kvs) k)"

text \<open>\<open>s.includes(t)\<close>: \<open>t\<close> occurs in \<open>s\<close> as a contiguous run.\<close>

definition str_includes :: "string \<Rightarrow> string \<Rightarrow> bool" where
  "str_includes s t = sublist t s"

text \<open>\<open>xs.join(sep)\<close> on an array of strings.\<close>

fun join :: "string list \<Rightarrow> string \<Rightarrow> string" where
  "join [] sep = []"
| "join [x] sep = x"
| "join (x # y # ys) sep = x @ sep @ join (y # ys) sep"

text \<open>Decimal rendering of an array index, as in \<open>`[${segment}]`\<close>.\<close>

definition digit_char :: "nat \<Rightarrow> char" where
  "digit_char d = char_of (48 + d)"

fun show_nat :: "nat \<Rightarrow> string" where
  "show_nat n = (if n < 10 then [digit_char n] else show_nat (n div 10) @ [digit_char (n mod 10)])"

declare show_nat.simps [simp del]

section \<open>The validation library, as far as \<open>chatSchema\<close> uses it\<close>

text \<open>
  \<open>chatSchema.validate(req.body, { abortEarly: false })\<close> is evaluated by the Joi library.
  The schema below is the one of the source; the validators give the library's order of
  checks for the schema constructors that occur in it: presence first, then the allow-list
  of \<open>valid(...)\<close>, then the base type (an error of the base type ends the checks of that
  value), then the rules in the order they were added.  With \<open>abortEarly: false\<close> every
  error found is kept.
\<close>

datatype seg = Key string | Idx nat

record detail =
  d_message :: string
  d_path :: "seg list"
  d_type :: string

text \<open>The label of a path: keys joined by dots, a dot only after something, indices in
  brackets; where that gives the empty string the label is \<open>value\<close>.  It is wrapped in
  double quotes.\<close>

fun path_from :: "string \<Rightarrow> seg list \<Rightarrow> string" where
  "path_from acc [] = acc"
| "path_from acc (Key k # p) = path_from (acc @ (if acc = [] then [] else ''.'') @ k) p"
| "path_from acc (Idx i # p) = path_from (acc @ ''['' @ show_nat i @ '']'') p"

definition path_label :: "seg list \<Rightarrow> string" where
  "path_label p = path_from [] p"

definition label :: "seg list \<Rightarrow> string" where
  \<open>label p = ''"'' @ (if path_label p = [] then ''value'' else path_label p) @ ''"''\<close>

text \<open>The library's message templates for the error codes that can arise here; \<open>ctx\<close> is
  the rendered limit, list of allowed values or type.\<close>

definition default_message :: "string \<Rightarrow> string \<Rightarrow> string \<Rightarrow> string" where
  "default_message code lbl ctx =
    (if code = ''any.required'' then lbl @ '' is required''
     else if code = ''any.only'' then lbl @ '' must be one of '' @ ctx
     else if code = ''string.base'' then lbl @ '' must be a string''
     else if code = ''string.empty'' then lbl @ '' is not allowed to be empty''
     else if code = ''string.min'' then lbl @ '' length must be at least '' @ ctx @ '' characters long''
     else if code = ''string.max'' then lbl @ '' length must be less than or equal to '' @ ctx @ '' characters long''
     else if code = ''array.base'' then lbl @ '' must be an array''
     else if code = ''array.max'' then lbl @ '' must contain less than or equal to '' @ ctx @ '' items''
     else if code = ''object.base'' then lbl @ '' must be of type '' @ ctx
     else if code = ''object.unknown'' then lbl @ '' is not allowed''
     else code)"

text \<open>\<open>.messages({...})\<close> overrides templates by code; a schema's overrides also reach the
  schemas nested in it, the innermost override first.\<close>

definition create_error :: "(string \<times> string) list \<Rightarrow> string \<Rightarrow> seg list \<Rightarrow> string \<Rightarrow> detail" where
  "create_error msgs code p ctx =
    \<lparr>d_message = (case map_of msgs code of Some m \<Rightarrow> m | None \<Rightarrow> default_message code (label p) ctx),
     d_path = p, d_type = code\<rparr>"

datatype 'a presence = Required | Optional | Default 'a

record string_schema =
  s_min :: "nat option"
  s_max :: "nat option"
  s_valid :: "string list option"
  s_presence :: "string presence"
  s_messages :: "(string \<times> string) list"

record array_schema =
  a_items :: string_schema
  a_max :: "nat option"
  a_presence :: "string list presence"
  a_messages :: "(string \<times> string) list"

definition show_valids :: "string list \<Rightarrow> string" where
  "show_valids vs = ''['' @ join vs '', '' @ '']''"

text \<open>The rules \<open>min\<close> and \<open>max\<close> of a string, in the order of the chain.\<close>

definition string_rules :: "(string \<times> string) list \<Rightarrow> seg list \<Rightarrow> string_schema \<Rightarrow> string \<Rightarrow> detail list" where
  "string_rules msgs p sch s =
    (case s_min sch of None \<Rightarrow> []
      | Some n \<Rightarrow> if n \<le> length s then [] else [create_error msgs ''string.min'' p (show_nat n)]) @
    (case s_max sch of None \<Rightarrow> []
      | Some n \<Rightarrow> if length s \<le> n then [] else [create_error msgs ''string.max'' p (show_nat n)])"

text \<open>A string schema on a value that may be \<open>undefined\<close>.  The result is the list of
  errors, or the validated value (\<open>None\<close>: still \<open>undefined\<close>).\<close>

definition validate_string ::
  "(string \<times> string) list \<Rightarrow> seg list \<Rightarrow> string_schema \<Rightarrow> json option \<Rightarrow> detail list + string option" where
  "validate_string inherited p sch v =
    (let msgs = s_messages sch @ inherited in
     case v of
       None \<Rightarrow>
         (case s_presence sch of
            Required \<Rightarrow> Inl [create_error msgs ''any.required'' p []]
          | Optional \<Rightarrow> Inr None
          | Default d \<Rightarrow> Inr (Some d))
     | Some x \<Rightarrow>
         (case (case (s_valid sch, x) of
                  (Some vs, JStr s) \<Rightarrow> if s \<in> set vs then Some s else None
                | _ \<Rightarrow> None) of
            Some s \<Rightarrow> Inr (Some s)
          | None \<Rightarrow>
             (let only = (case s_valid sch of
                            None \<Rightarrow> []
                          | Some vs \<Rightarrow> [create_error msgs ''any.only'' p (show_valids vs)]) in
              case x of
                JStr s \<Rightarrow>
                  if s = [] \<and> s_min sch \<noteq> Some 0
                  then Inl (only @ [create_error msgs ''string.empty'' p []])
                  else (let errs = only @ string_rules msgs p sch s
                        in if errs = [] then Inr (Some s) else Inl errs)
              | _ \<Rightarrow> Inl (only @ [create_error msgs ''string.base'' p []]))))"

definition errors_of :: "detail list + 'a \<Rightarrow> detail list" where
  "errors_of r = (case r of Inl es \<Rightarrow> es | Inr _ \<Rightarrow> [])"

definition item_value :: "detail list + string option \<Rightarrow> string list" where
  "item_value r = (case r of Inr (Some s) \<Rightarrow> [s] | _ \<Rightarrow> [])"

text \<open>The rule \<open>items\<close> of an array validates every element against the item schema, at the
  path of its index, and keeps all errors; it runs before the rule \<open>max\<close>.\<close>

definition validate_items ::
  "(string \<times> string) list \<Rightarrow> seg list \<Rightarrow> string_schema \<Rightarrow> json list \<Rightarrow> (detail list + string option) list" where
  "validate_items msgs p sch xs =
    map (\<lambda>(i, x). validate_string msgs (p @ [Idx i]) sch (Some x)) (enumerate 0 xs)"

definition validate_array ::
  "(string \<times> string) list \<Rightarrow> seg list \<Rightarrow> array_schema \<Rightarrow> json option \<Rightarrow> detail list + string list option" where
  "validate_array inherited p sch v =
    (let msgs = a_messages sch @ inherited in
     case v of
       None \<Rightarrow>
         (case a_presence sch of
            Required \<Rightarrow> Inl [create_error msgs ''any.required'' p []]
          | Optional \<Rightarrow> Inr None
          | Default d \<Rightarrow> Inr (Some d))
     | Some (JArr xs) \<Rightarrow>
         (let rs = validate_items msgs p (a_items sch) xs;
              errs = concat (map errors_of rs) @
                (case a_max sch of None \<Rightarrow> []
                  | Some n \<Rightarrow> if length xs \<le> n then [] else [create_error msgs ''array.max'' p (show_nat n)])
          in if errs = [] then Inr (Some (concat (map item_value rs))) else Inl errs)
     | Some _ \<Rightarrow> Inl [create_error msgs ''array.base'' p []])"

section \<open>\<open>chatSchema\<close>\<close>

definition question_schema :: string_schema where
  "question_schema =
    \<lparr>s_min = Some 10, s_max = Some 5000, s_valid = None, s_presence = Required,
     s_messages =
       [(''string.base'', ''Question must be a string''),
        (''string.min'', ''Question must be at least 10 characters long''),
        (''string.max'', ''Question cannot exceed 5000 characters''),
        (''any.required'', ''Question is required'')]\<rparr>"

definition citationStyle_schema :: string_schema where
  "citationStyle_schema =
    \<lparr>s_min = None, s_max = None, s_valid = Some [''apa'', ''mla'', ''chicago''],
     s_presence = Default ''apa'',
     s_messages = [(''any.only'', ''Citation style must be one of: apa, mla, chicago'')]\<rparr>"

definition citationMode_schema :: string_schema where
  "citationMode_schema =
    \<lparr>s_min = None, s_max = None, s_valid = Some [''strict'', ''balanced'', ''flexible''],
     s_presence = Default ''balanced'',
     s_messages = [(''any.only'', ''Citation mode must be one of: strict, balanced, flexible'')]\<rparr>"

definition recency_schema :: string_schema where
  "recency_schema =
    \<lparr>s_min = None, s_max = None, s_valid = Some [''5'', ''10'', ''15'', ''all''],
     s_presence = Default ''10'',
     s_messages = [(''any.only'', ''Recency must be one of: 5, 10, 15, all'')]\<rparr>"

definition materials_schema :: array_schema where
  "materials_schema =
    \<lparr>a_items =
       \<lparr>s_min = None, s_max = Some 500, s_valid = None, s_presence = Optional,
        s_messages = [(''string.max'', ''Each material entry cannot exceed 500 characters'')]\<rparr>,
     a_max = Some 20, a_presence = Default [],
     a_messages = [(''array.max'', ''Materials cannot exceed 20 items'')]\<rparr>"

definition schema_keys :: "string list" where
  "schema_keys = [''question'', ''citationStyle'', ''citationMode'', ''recency'', ''materials'']"

record ChatRequest =
  question :: string
  citationStyle :: string
  citationMode :: string
  recency :: string
  materials :: "string list"

text \<open>Own keys of the copy (\<open>Object.keys\<close>) that the schema does not declare: each is an
  error \<open>object.unknown\<close>, after the errors of the declared keys.  The key \<open>__proto__\<close> of
  the body is not among them.\<close>

definition unknown_keys :: "(string \<times> json) list \<Rightarrow> detail list" where
  "unknown_keys kvs =
    map (\<lambda>k. create_error [] ''object.unknown'' [Key k] [])
      (filter (\<lambda>k. k \<notin> set schema_keys) (map fst (own_props kvs)))"

text \<open>\<open>chatSchema.validate(body, { abortEarly: false })\<close>: the errors (\<open>error.details\<close>), or
  the value with the defaults applied.  The object schema is not \<open>required()\<close>: for
  \<open>undefined\<close> there is no error and the value is \<open>undefined\<close>.\<close>

definition chatSchema_validate :: "json option \<Rightarrow> detail list + ChatRequest option" where
  "chatSchema_validate body =
    (case body of
       None \<Rightarrow> Inr None
     | Some (JObj kvs) \<Rightarrow>
         (let rq = validate_string [] [Key ''question''] question_schema (get_prop kvs ''question'');
              rs = validate_string [] [Key ''citationStyle''] citationStyle_schema (get_prop kvs ''citationStyle'');
              rm = validate_string [] [Key ''citationMode''] citationMode_schema (get_prop kvs ''citationMode'');
              rr = validate_string [] [Key ''recency''] recency_schema (get_prop kvs ''recency'');
              ra = validate_array [] [Key ''materials''] materials_schema (get_prop kvs ''materials'');
              unk = unknown_keys kvs
          in case (rq, rs, rm, rr, ra, unk) of
               (Inr (Some q), Inr (Some s), Inr (Some m), Inr (Some r), Inr (Some a), []) \<Rightarrow>
                 Inr (Some \<lparr>question = q, citationStyle = s, citationMode = m, recency = r,
                            materials = a\<rparr>)
             | _ \<Rightarrow> Inl (errors_of rq @ errors_of rs @ errors_of rm @ errors_of rr @ errors_of ra @ unk))
     | Some _ \<Rightarrow> Inl [create_error [] ''object.base'' [] ''object''])"

section \<open>The prompt builder\<close>

text \<open>\<open>String.prototype.trim\<close> removes white space at both ends; these are the white-space
  code units below 256.\<close>

definition is_space :: "char \<Rightarrow> bool" where
  "is_space c = (c \<in> set [CHR 0x09, CHR 0x0A, CHR 0x0B, CHR 0x0C, CHR 0x0D, CHR 0x20, CHR 0xA0])"

definition trim :: "string \<Rightarrow> string" where
  "trim s = rev (dropWhile is_space (rev (dropWhile is_space s)))"

definition recency_clause :: "string \<Rightarrow> string" where
  "recency_clause r =
    (if r = ''all'' then ''no hard limit, but flag older work''
     else ''focus on roughly the last '' @ r @ '' years of research'')"

definition materials_clause :: "string list \<Rightarrow> string" where
  "materials_clause ms =
    (if length ms \<noteq> 0
     then ''- User has indicated the following course materials:\<newline>  - '' @ join ms ''\<newline>  - ''
     else ''- No specific course materials listed in this request.'')"

text \<open>The lines of the template literal between its first and its last line break, with
  the interpolated expressions in their places.\<close>

definition prompt_lines :: "ChatRequest \<Rightarrow> string list" where
  \<open>prompt_lines v =
    [
     ''You are PsyCanvas AI, a mental health study assistant for college-level psychology and counseling students.'',
     '''',
     ''Goals:'',
     ''- Help users understand mental health concepts, DSM-5-TR criteria (described in your own words), case formulations, and evidence-based treatments.'',
     ''- Use mental-health specific knowledge, plus the course materials the user provides (textbooks, articles).'',
     ''- Always include in-text citations and a reference list in the requested style: '' @ citationStyle v @ ''.'',
     '''',
     ''Critical rules:'',
     ''- Do NOT reproduce DSM-5-TR text verbatim (paraphrase in your own words).'',
     ''- Use cautious, non-fabricated citations; if you are not sure about a reference, either omit it or clearly flag it as a suggested reading, not a precise citation.'',
     '''',
     ''Citation style:'',
     ''- Current setting: '' @ citationStyle v @ ''.'',
     ''- Citation strictness: '' @ citationMode v @ ''.'',
     ''- Recency preference: '' @ recency_clause (recency v) @ ''.'',
     '''',
     ''Course materials:'',
     materials_clause (materials v),
     '''',
     ''Output format:'',
     ''1. Provide a clear, structured explanation or answer to the user's question.'',
     ''2. Use in-text citations with author and year (and page/section if appropriate).'',
     ''3. End with a "References" section, listing the main sources you relied on, formatted as best you can in the chosen style.''
    ]\<close>

text \<open>The template literal opens with a line break, closes with one, and is trimmed.\<close>

definition systemPrompt :: "ChatRequest \<Rightarrow> string" where
  "systemPrompt v = trim (join ([] # prompt_lines v @ [[]]) ''\<newline>'')"

section \<open>The response classifier\<close>

text \<open>What the \<open>catch\<close> block reads of the value thrown: \<open>err.message\<close>, \<open>err.code\<close> and
  \<open>err.status\<close>, each possibly \<open>undefined\<close>.  \<open>err.message?.includes(t)\<close> is falsy when
  the message is \<open>undefined\<close>.\<close>

record js_error =
  err_message :: "string option"
  err_code :: "string option"
  err_status :: "int option"

record response =
  res_status :: nat
  res_body :: json

definition message_includes :: "js_error \<Rightarrow> string \<Rightarrow> bool" where
  "message_includes err t = (case err_message err of None \<Rightarrow> False | Some m \<Rightarrow> str_includes m t)"

definition error_body :: "string \<Rightarrow> string \<Rightarrow> json" where
  "error_body e m = JObj [(''error'', JStr e), (''message'', JStr m)]"

definition chat_catch :: "js_error \<Rightarrow> response" where
  "chat_catch err =
    (if err_message err = Some ''Request timeout'' then
       \<lparr>res_status = 408,
        res_body = error_body ''Request timeout'' ''The request took too long to process. Please try again.''\<rparr>
     else if err_code err = Some ''ENOTFOUND'' \<or> err_code err = Some ''ECONNREFUSED'' \<or>
             message_includes err ''network'' then
       \<lparr>res_status = 503,
        res_body = error_body ''Service unavailable'' ''Unable to connect to AI service. Please try again later.''\<rparr>
     else if err_status err = Some 401 \<or> message_includes err ''API key'' \<or>
             message_includes err ''authentication'' then
       \<lparr>res_status = 500,
        res_body = error_body ''Configuration error'' ''The service is currently unavailable. Please contact support.''\<rparr>
     else if err_status err = Some 429 \<or> message_includes err ''rate limit'' then
       \<lparr>res_status = 429,
        res_body = error_body ''Rate limit exceeded'' ''Too many requests. Please try again later.''\<rparr>
     else if message_includes err ''model'' \<or> message_includes err ''invalid'' then
       \<lparr>res_status = 500,
        res_body = error_body ''Configuration error'' ''Invalid AI model configuration. Please contact support.''\<rparr>
     else
       \<lparr>res_status = 500,
        res_body = error_body ''Internal server error''
          ''Something went wrong while generating an answer. Please try again.''\<rparr>)"

section \<open>The completion gateway\<close>

text \<open>A promise either never settles or settles, fulfilled or rejected, at some
  millisecond of the handler's run.  \<open>Promise.race\<close> settles as the member that settles
  first does.  Its members come with the position at which the handler created them: of
  two that settle in the same millisecond the one created earlier is first, and of two
  such created together the earlier of the array.\<close>

datatype 'a settled = Fulfilled 'a | Rejected js_error

datatype 'a promise = Never | Settles nat "'a settled"

fun first_settled :: "nat \<times> 'a promise \<Rightarrow> nat \<times> 'a promise \<Rightarrow> nat \<times> 'a promise" where
  "first_settled (c, Never) q = q"
| "first_settled (c, Settles t a) (d, Never) = (c, Settles t a)"
| "first_settled (c, Settles t a) (d, Settles u b) =
    (if t < u \<or> (t = u \<and> c \<le> d) then (c, Settles t a) else (d, Settles u b))"

definition Promise_race :: "(nat \<times> 'a promise) list \<Rightarrow> 'a promise" where
  "Promise_race ps = snd (foldr first_settled ps (0, Never))"

text \<open>\<open>new Promise((_, reject) => setTimeout(() => reject(new Error('Request timeout')), 30000))\<close>\<close>

definition timeoutPromise :: "'a promise" where
  "timeoutPromise =
    Settles 30000 (Rejected \<lparr>err_message = Some ''Request timeout'', err_code = None, err_status = None\<rparr>)"

section \<open>The handler of \<open>POST /api/chat\<close>\<close>

text \<open>The remote completion service is the parameter \<open>generateText\<close>: for a system
  instruction and a prompt it gives the promise of the generated text.  The handler's
  outcome is the response it sends (\<open>None\<close>: it never responds) and the calls of
  \<open>generateText\<close> it has made, each with its system instruction and prompt.  Writing to
  the log is left out.\<close>

record outcome =
  sent :: "response option"
  calls :: "(string \<times> string) list"

text \<open>When the validated value is \<open>undefined\<close>, the destructuring
  \<open>const { question, ... } = value\<close> throws a \<open>TypeError\<close>, which the \<open>catch\<close> block
  receives; the message is the engine's.\<close>

definition destructure_error :: js_error where
  "destructure_error =
    \<lparr>err_message = Some ''Cannot destructure property 'question' of 'value' as it is undefined.'',
     err_code = None, err_status = None\<rparr>"

text \<open>The timer of \<open>timeoutPromise\<close> is started first (position 0), then \<open>generateText\<close>
  is called (position 1).\<close>

definition chat_handler :: "(string \<Rightarrow> string \<Rightarrow> string promise) \<Rightarrow> json option \<Rightarrow> outcome" where
  "chat_handler generateText body =
    (case chatSchema_validate body of
       Inl details \<Rightarrow>
         \<lparr>sent = Some \<lparr>res_status = 400,
            res_body = JObj [(''error'', JStr ''Validation failed''),
                             (''details'', JArr (map (\<lambda>d. JStr (d_message d)) details))]\<rparr>,
          calls = []\<rparr>
     | Inr None \<Rightarrow> \<lparr>sent = Some (chat_catch destructure_error), calls = []\<rparr>
     | Inr (Some v) \<Rightarrow>
         (let generatePromise = generateText (systemPrompt v) (question v) in
          \<lparr>sent =
             (case Promise_race [(1, generatePromise), (0, timeoutPromise)] of
                Never \<Rightarrow> None
              | Settles t (Fulfilled text) \<Rightarrow> Some \<lparr>res_status = 200, res_body = JObj [(''answer'', JStr text)]\<rparr>
              | Settles t (Rejected err) \<Rightarrow> Some (chat_catch err)),
           calls = [(systemPrompt v, question v)]\<rparr>))"

section \<open>The ingestion script\<close>

text \<open>\<open>s.split(sep)\<close> for a string separator: the pieces between the occurrences of \<open>sep\<close>,
  found from left to right without overlap; an empty separator gives the code units.\<close>

function split_from :: "string \<Rightarrow> string \<Rightarrow> string \<Rightarrow> string list" where
  "split_from sep cur [] = [cur]"
| "split_from sep cur (c # cs) =
    (if sep \<noteq> [] \<and> prefix sep (c # cs)
     then cur # split_from sep [] (drop (length sep) (c # cs))
     else split_from sep (cur @ [c]) cs)"
  by pat_completeness auto
termination
  by (relation "measure (\<lambda>(sep, cur, s). length s)") auto

definition split_str :: "string \<Rightarrow> string \<Rightarrow> string list" where
  "split_str s sep = (if sep = [] then map (\<lambda>c. [c]) s else split_from sep [] s)"

text \<open>\<open>text.split('\n\n').filter(c => c.length > 50)\<close>\<close>

definition seed_chunks :: "string \<Rightarrow> string list" where
  "seed_chunks text = filter (\<lambda>c. length c > 50) (split_str text ''\<newline>\<newline>'')"

record 'v upsert =
  u_id :: string
  u_values :: 'v
  u_text :: string
  u_source :: string

text \<open>The body of the loop over the files, for one file: nothing for a name that does not
  end in \<open>.txt\<close>, else one record upserted per chunk, in order, with the embedding that
  the remote service \<open>generateEmbedding\<close> gives for the chunk.\<close>

definition seed_file :: "(string \<Rightarrow> 'v) \<Rightarrow> string \<Rightarrow> string \<Rightarrow> 'v upsert list" where
  "seed_file generateEmbedding file text =
    (if \<not> suffix ''.txt'' file then []
     else map (\<lambda>(i, chunk).
            \<lparr>u_id = file @ ''-'' @ show_nat i, u_values = generateEmbedding chunk,
             u_text = chunk, u_source = file\<rparr>)
          (enumerate 0 (seed_chunks text)))"

section \<open>The specification's vocabulary\<close>

text \<open>The validation rules of the specification, each with the message that reports its
  violation: the messages that \<open>details\<close> is expected to hold for a body with the
  properties \<open>kvs\<close>.  A field is what the validator reads for its key (\<open>get_prop\<close>).\<close>

definition too_long_entry :: "json \<Rightarrow> bool" where
  "too_long_entry x = (case x of JStr s \<Rightarrow> 500 < length s | _ \<Rightarrow> False)"

definition violated_rules :: "(string \<times> json) list \<Rightarrow> string list" where
  \<open>violated_rules kvs =
    (case get_prop kvs ''question'' of
       None \<Rightarrow> [''Question is required'']
     | Some (JStr s) \<Rightarrow>
         if s = [] then [''"question" is not allowed to be empty'']
         else if length s < 10 then [''Question must be at least 10 characters long'']
         else if 5000 < length s then [''Question cannot exceed 5000 characters'']
         else []
     | Some _ \<Rightarrow> [''Question must be a string'']) @
    (case get_prop kvs ''citationStyle'' of
       None \<Rightarrow> []
     | Some x \<Rightarrow> if x \<in> set [JStr ''apa'', JStr ''mla'', JStr ''chicago''] then []
                else [''Citation style must be one of: apa, mla, chicago'']) @
    (case get_prop kvs ''citationMode'' of
       None \<Rightarrow> []
     | Some x \<Rightarrow> if x \<in> set [JStr ''strict'', JStr ''balanced'', JStr ''flexible''] then []
                else [''Citation mode must be one of: strict, balanced, flexible'']) @
    (case get_prop kvs ''recency'' of
       None \<Rightarrow> []
     | Some x \<Rightarrow> if x \<in> set [JStr ''5'', JStr ''10'', JStr ''15'', JStr ''all''] then []
                else [''Recency must be one of: 5, 10, 15, all'']) @
    (case get_prop kvs ''materials'' of
       Some (JArr xs) \<Rightarrow>
         (if list_ex too_long_entry xs then [''Each material entry cannot exceed 500 characters''] else []) @
         (if 20 < length xs then [''Materials cannot exceed 20 items''] else [])
     | _ \<Rightarrow> [])\<close>

text \<open>All errors of a body with the properties \<open>kvs\<close>: those of the declared keys in the
  order of the schema, then those of the undeclared keys.\<close>

definition schema_errors :: "(string \<times> json) list \<Rightarrow> detail list" where
  "schema_errors kvs =
    errors_of (validate_string [] [Key ''question''] question_schema (get_prop kvs ''question'')) @
    errors_of (validate_string [] [Key ''citationStyle''] citationStyle_schema (get_prop kvs ''citationStyle'')) @
    errors_of (validate_string [] [Key ''citationMode''] citationMode_schema (get_prop kvs ''citationMode'')) @
    errors_of (validate_string [] [Key ''recency''] recency_schema (get_prop kvs ''recency'')) @
    errors_of (validate_array [] [Key ''materials''] materials_schema (get_prop kvs ''materials'')) @
    unknown_keys kvs"

text \<open>The body of a validation failure.\<close>

definition validation_failed :: "detail list \<Rightarrow> response" where
  "validation_failed ds =
    \<lparr>res_status = 400,
     res_body = JObj [(''error'', JStr ''Validation failed''),
                      (''details'', JArr (map (\<lambda>d. JStr (d_message d)) ds))]\<rparr>"

text \<open>The failure kinds of the completion gateway.  A failure mentions a text when its
  message has it as a contiguous part.  The kind of a failure is that of the first test
  of the list that the failure passes, and \<open>Unknown\<close> when it passes none.\<close>

datatype failure_kind = Timeout | Unreachable | Misconfigured | Throttled | BadModelConfig | Unknown

definition mentions :: "js_error \<Rightarrow> string \<Rightarrow> bool" where
  "mentions err t = list_ex (sublist t) (case err_message err of None \<Rightarrow> [] | Some m \<Rightarrow> [m])"

definition kind_tests :: "(failure_kind \<times> (js_error \<Rightarrow> bool)) list" where
  "kind_tests =
    [(Timeout, \<lambda>e. err_message e = Some ''Request timeout''),
     (Unreachable, \<lambda>e. err_code e = Some ''ENOTFOUND'' \<or> err_code e = Some ''ECONNREFUSED''
        \<or> mentions e ''network''),
     (Misconfigured, \<lambda>e. err_status e = Some 401 \<or> mentions e ''API key''
        \<or> mentions e ''authentication''),
     (Throttled, \<lambda>e. err_status e = Some 429 \<or> mentions e ''rate limit''),
     (BadModelConfig, \<lambda>e. mentions e ''model'' \<or> mentions e ''invalid'')]"

definition failure_kind_of :: "js_error \<Rightarrow> failure_kind" where
  "failure_kind_of err =
    (case find (\<lambda>(k, test). test err) kind_tests of Some (k, test) \<Rightarrow> k | None \<Rightarrow> Unknown)"

fun table_status :: "failure_kind \<Rightarrow> nat" where
  "table_status Timeout = 408"
| "table_status Unreachable = 503"
| "table_status Misconfigured = 500"
| "table_status Throttled = 429"
| "table_status BadModelConfig = 500"
| "table_status Unknown = 500"

fun table_error :: "failure_kind \<Rightarrow> string" where
  "table_error Timeout = ''Request timeout''"
| "table_error Unreachable = ''Service unavailable''"
| "table_error Misconfigured = ''Configuration error''"
| "table_error Throttled = ''Rate limit exceeded''"
| "table_error BadModelConfig = ''Configuration error''"
| "table_error Unknown = ''Internal server error''"

fun table_message :: "failure_kind \<Rightarrow> string" where
  "table_message Timeout = ''The request took too long to process. Please try again.''"
| "table_message Unreachable = ''Unable to connect to AI service. Please try again later.''"
| "table_message Misconfigured = ''The service is currently unavailable. Please contact support.''"
| "table_message Throttled = ''Too many requests. Please try again later.''"
| "table_message BadModelConfig = ''Invalid AI model configuration. Please contact support.''"
| "table_message Unknown = ''Something went wrong while generating an answer. Please try again.''"

text \<open>A promise has settled within \<open>n\<close> milliseconds.\<close>

definition settled_within :: "nat \<Rightarrow> 'a promise \<Rightarrow> bool" where
  "settled_within n p = (case p of Never \<Rightarrow> False | Settles t _ \<Rightarrow> t \<le> n)"

text \<open>The optional fields with their default values, a body without the own properties
  \<open>ks\<close>, a body whose \<open>__proto__\<close> hands down none of the keys \<open>ks\<close>, and a body that
  supplies the default value for every key of \<open>ks\<close>.\<close>

definition default_entries :: "(string \<times> json) list" where
  "default_entries =
    [(''citationStyle'', JStr ''apa''), (''citationMode'', JStr ''balanced''),
     (''recency'', JStr ''10''), (''materials'', JArr [])]"

definition omit :: "string list \<Rightarrow> (string \<times> json) list \<Rightarrow> (string \<times> json) list" where
  "omit ks kvs = filter (\<lambda>(k, x). k \<notin> set ks) kvs"

definition inherits_none :: "string list \<Rightarrow> (string \<times> json) list \<Rightarrow> bool" where
  "inherits_none ks kvs = list_all (\<lambda>k. map_of (proto_props kvs) k = None) ks"

definition supplies_defaults :: "string list \<Rightarrow> (string \<times> json) list \<Rightarrow> bool" where
  "supplies_defaults ks kvs =
    list_all (\<lambda>k. map_of default_entries k \<noteq> None \<and> get_prop kvs k = map_of default_entries k) ks"

text \<open>The bulleted list of the materials: one entry per string, each on a line of its own.\<close>

definition bullets :: "string list \<Rightarrow> string" where
  "bullets ms = concat (map (\<lambda>m. ''\<newline>  - '' @ m) ms)"

section \<open>Strings: joining, splitting, trimming\<close>

lemma split_from_nonempty: "split_from sep cur s \<noteq> []"
  by (induction sep cur s rule: split_from.induct) auto

lemma join_Cons_nonempty: "ys \<noteq> [] \<Longrightarrow> join (x # ys) sep = x @ sep @ join ys sep"
  by (cases ys) auto

lemma join_split_from: "join (split_from sep cur s) sep = cur @ s"
proof (induction sep cur s rule: split_from.induct)
  case (1 sep cur)
  show ?case by simp
next
  case (2 sep cur c cs)
  show ?case
  proof (cases "sep \<noteq> [] \<and> prefix sep (c # cs)")
    case True
    then have eq: "c # cs = sep @ drop (length sep) (c # cs)"
      by (metis append_eq_conv_conj prefixE)
    have "join (split_from sep cur (c # cs)) sep
        = cur @ sep @ join (split_from sep [] (drop (length sep) (c # cs))) sep"
      using True by (simp add: join_Cons_nonempty split_from_nonempty)
    also have "\<dots> = cur @ sep @ drop (length sep) (c # cs)"
      using 2(1) True by simp
    finally show ?thesis using eq by simp
  next
    case False
    then show ?thesis using 2(2) by auto
  qed
qed

lemma join_split_str: "sep \<noteq> [] \<Longrightarrow> join (split_str s sep) sep = s"
  by (simp add: split_str_def join_split_from)

lemma map_enumerate_snd: "map (\<lambda>(i, c). f c) (enumerate n xs) = map f xs"
  by (induction xs arbitrary: n) auto

lemma seed_file_texts:
  "suffix ''.txt'' file \<Longrightarrow> map u_text (seed_file g file text) = seed_chunks text"
  using map_enumerate_snd [of "\<lambda>c. c" 0 "seed_chunks text"]
  by (simp add: seed_file_def o_def split_def)

lemma seed_file_values:
  "suffix ''.txt'' file \<Longrightarrow> map u_values (seed_file g file text) = map g (seed_chunks text)"
  using map_enumerate_snd [of g 0 "seed_chunks text"]
  by (simp add: seed_file_def o_def split_def)

lemma seed_chunks_51:
  "seed_chunks text = filter (\<lambda>c. 51 \<le> length c) (split_str text ''\<newline>\<newline>'')"
proof -
  have "(\<lambda>c::string. 50 < length c) = (\<lambda>c. 51 \<le> length c)"
    by (auto simp: fun_eq_iff)
  then show ?thesis by (simp add: seed_chunks_def)
qed

lemma join_append:
  "xs \<noteq> [] \<Longrightarrow> ys \<noteq> [] \<Longrightarrow> join (xs @ ys) sep = join xs sep @ sep @ join ys sep"
proof (induction xs)
  case Nil
  then show ?case by simp
next
  case (Cons x xs)
  show ?case
  proof (cases "xs = []")
    case True
    then show ?thesis using Cons.prems by (simp add: join_Cons_nonempty)
  next
    case False
    then show ?thesis using Cons by (simp add: join_Cons_nonempty)
  qed
qed

lemma sublist_in_right: "sublist x ys \<Longrightarrow> sublist x (ps @ ys)"
  unfolding sublist_def by (metis append.assoc)

lemma sublist_in_left: "sublist x ys \<Longrightarrow> sublist x (ys @ ss)"
  unfolding sublist_def by (metis append.assoc)

lemma sublist_join_member: "x \<in> set ls \<Longrightarrow> sublist x (join ls sep)"
proof (induction ls)
  case Nil
  then show ?case by simp
next
  case (Cons l ls)
  show ?case
  proof (cases "ls = []")
    case True
    then show ?thesis using Cons.prems by simp
  next
    case False
    then have j: "join (l # ls) sep = l @ sep @ join ls sep"
      by (simp add: join_Cons_nonempty)
    show ?thesis
    proof (cases "x = l")
      case True
      then show ?thesis unfolding j by (metis append_Nil sublist_appendI)
    next
      case False
      then have "sublist x (join ls sep)" using Cons by simp
      then show ?thesis unfolding j
        by (intro sublist_in_right)
    qed
  qed
qed

lemma sublist_join_adjacent:
  "ls = xs @ a # b # ys \<Longrightarrow> sublist (a @ sep @ b) (join ls sep)"
proof -
  assume ls: "ls = xs @ a # b # ys"
  have ab: "sublist (a @ sep @ b) (join (a # b # ys) sep)"
  proof (cases "ys = []")
    case True
    then show ?thesis by simp
  next
    case False
    then have "join (a # b # ys) sep = (a @ sep @ b) @ sep @ join ys sep"
      by (cases ys) auto
    then show ?thesis by (metis append_Nil sublist_appendI)
  qed
  show ?thesis
  proof (cases "xs = []")
    case True
    then show ?thesis using ab ls by simp
  next
    case False
    then have "join ls sep = join xs sep @ sep @ join (a # b # ys) sep"
      using ls by (simp add: join_append)
    then show ?thesis using ab
      by (simp add: sublist_in_right)
  qed
qed

lemma trim_core:
  assumes "s \<noteq> []" "\<not> is_space (hd s)" "\<not> is_space (last s)"
    and "\<forall>c\<in>set w1. is_space c" "\<forall>c\<in>set w2. is_space c"
  shows "trim (w1 @ s @ w2) = s"
proof -
  obtain c s' where s: "s = c # s'" using assms(1) by (cases s) auto
  have "dropWhile is_space (w1 @ s @ w2) = dropWhile is_space (s @ w2)"
    using assms(4) by (simp add: dropWhile_append2)
  then have 1: "dropWhile is_space (w1 @ s @ w2) = s @ w2"
    using assms(2) s by simp
  obtain d s'' where r: "rev s = d # s''" using assms(1) by (cases "rev s") auto
  then have d: "d = last s" by (metis assms(1) hd_rev list.sel(1))
  have a: "dropWhile is_space (rev w2 @ rev s) = dropWhile is_space (rev s)"
    by (rule dropWhile_append2) (use assms(5) in simp)
  have b: "dropWhile is_space (rev s) = rev s"
    unfolding r using assms(3) d by simp
  have 2: "dropWhile is_space (rev (s @ w2)) = rev s"
    unfolding rev_append a b ..
  show ?thesis unfolding trim_def 1 2 by simp
qed

lemma hd_join: "l \<noteq> [] \<Longrightarrow> hd (join (l # ls) sep) = hd l"
  by (cases ls) auto

lemma last_join: "l \<noteq> [] \<Longrightarrow> last (join (ls @ [l]) sep) = last l"
proof (cases "ls = []")
  case True
  assume "l \<noteq> []"
  then show ?thesis using True by simp
next
  case False
  assume "l \<noteq> []"
  then show ?thesis using False by (simp add: join_append)
qed

lemma prompt_lines_first:
  "prompt_lines v = ''You are PsyCanvas AI, a mental health study assistant for college-level psychology and counseling students.'' # tl (prompt_lines v)"
  by (simp add: prompt_lines_def)

lemma prompt_lines_last:
  \<open>prompt_lines v = butlast (prompt_lines v) @ [''3. End with a "References" section, listing the main sources you relied on, formatted as best you can in the chosen style.'']\<close>
  by (simp add: prompt_lines_def)

lemma systemPrompt_lines: "systemPrompt v = join (prompt_lines v) ''\<newline>''"
proof -
  let ?s = "join (prompt_lines v) ''\<newline>''"
  have ne: "prompt_lines v \<noteq> []" by (simp add: prompt_lines_def)
  have j: "join ([] # prompt_lines v @ [[]]) ''\<newline>'' = ''\<newline>'' @ ?s @ ''\<newline>''"
    using ne by (simp add: join_Cons_nonempty join_append)
  have h: "hd ?s = CHR ''Y''"
    by (subst prompt_lines_first) (simp add: hd_join)
  have l: "last ?s = CHR ''.''"
    by (subst prompt_lines_last) (simp add: last_join)
  have n: "?s \<noteq> []"
    by (subst prompt_lines_first) (cases "tl (prompt_lines v)", simp_all)
  show ?thesis
    unfolding systemPrompt_def j
    by (rule trim_core) (simp_all add: n h l is_space_def)
qed

section \<open>Properties of the validators\<close>

lemma label_key: \<open>label [Key k] = ''"'' @ (if k = [] then ''value'' else k) @ ''"''\<close>
  by (simp add: label_def path_label_def)


lemma validate_string_errors_nonempty:
  "validate_string inh p sch x = Inl es \<Longrightarrow> es \<noteq> []"
  by (auto simp: validate_string_def Let_def string_rules_def
      split: option.splits presence.splits json.splits if_splits prod.splits)

lemma validate_string_defined:
  "validate_string inh p sch (Some y) \<noteq> Inr None"
  by (auto simp: validate_string_def Let_def split: option.splits json.splits if_splits prod.splits)

lemma validate_string_absent:
  "validate_string inh p sch None =
    (case s_presence sch of
       Required \<Rightarrow> Inl [create_error (s_messages sch @ inh) ''any.required'' p []]
     | Optional \<Rightarrow> Inr None
     | Default d \<Rightarrow> Inr (Some d))"
  by (simp add: validate_string_def)

lemma question_messages:
  \<open>map d_message (errors_of (validate_string [] [Key ''question''] question_schema x)) =
    (case x of
       None \<Rightarrow> [''Question is required'']
     | Some (JStr s) \<Rightarrow>
         if s = [] then [''"question" is not allowed to be empty'']
         else if length s < 10 then [''Question must be at least 10 characters long'']
         else if 5000 < length s then [''Question cannot exceed 5000 characters'']
         else []
     | Some _ \<Rightarrow> [''Question must be a string''])\<close>
  by (auto simp: validate_string_def question_schema_def string_rules_def create_error_def
      errors_of_def default_message_def label_key split: option.splits json.splits)

lemma question_value:
  "validate_string [] [Key ''question''] question_schema x = Inr r \<Longrightarrow>
     \<exists>s. x = Some (JStr s) \<and> r = Some s \<and> 10 \<le> length s \<and> length s \<le> 5000"
  by (auto simp: validate_string_def question_schema_def string_rules_def Let_def
      split: option.splits json.splits if_splits)

lemma enum_accept:
  "s_valid sch = Some vs \<Longrightarrow> s \<in> set vs \<Longrightarrow>
     validate_string inh p sch (Some (JStr s)) = Inr (Some s)"
  by (simp add: validate_string_def)

lemma enum_reject:
  assumes "s_valid sch = Some vs" and "y \<notin> JStr ` set vs"
  shows "\<exists>es. validate_string inh p sch (Some y) =
      Inl (create_error (s_messages sch @ inh) ''any.only'' p (show_valids vs) # es)"
  using assms
  by (cases y) (auto simp: validate_string_def Let_def split: option.splits if_splits)

lemma enum_value:
  assumes "s_valid sch = Some vs" and "validate_string inh p sch (Some y) = Inr r"
  shows "\<exists>s. y = JStr s \<and> s \<in> set vs \<and> r = Some s"
  using assms
  by (cases y) (auto simp: validate_string_def Let_def split: option.splits if_splits)

lemma too_long_item:
  assumes "s_max sch = Some n" and "n < length t" and "map_of (s_messages sch) ''string.max'' = Some m"
    and "s_valid sch = None"
  shows "m \<in> d_message ` set (errors_of (validate_string inh p sch (Some (JStr t))))"
proof -
  have "t \<noteq> []" using assms(2) by auto
  then show ?thesis
    using assms
    by (auto simp: validate_string_def Let_def string_rules_def errors_of_def create_error_def
        split: option.splits)
qed

lemma validate_items_nth:
  "i < length xs \<Longrightarrow>
     validate_items msgs p sch xs ! i = validate_string msgs (p @ [Idx i]) sch (Some (xs ! i))"
  by (simp add: validate_items_def nth_enumerate_eq)

lemma validate_items_length: "length (validate_items msgs p sch xs) = length xs"
  by (simp add: validate_items_def)

lemma materials_absent:
  "validate_array [] [Key ''materials''] materials_schema None = Inr (Some [])"
  by (simp add: validate_array_def materials_schema_def)

lemma materials_empty:
  "validate_array [] [Key ''materials''] materials_schema (Some (JArr [])) = Inr (Some [])"
  by (simp add: validate_array_def materials_schema_def validate_items_def)

lemma validate_array_errors_nonempty:
  "validate_array inh p sch x = Inl es \<Longrightarrow> es \<noteq> []"
  by (auto simp: validate_array_def Let_def split: option.splits presence.splits json.splits if_splits)

lemma validate_array_defined:
  "validate_array inh p sch (Some y) \<noteq> Inr None"
  by (auto simp: validate_array_def Let_def split: option.splits json.splits if_splits)

lemma materials_too_many:
  assumes "20 < length xs"
  shows "''Materials cannot exceed 20 items'' \<in>
    d_message ` set (errors_of (validate_array [] [Key ''materials''] materials_schema (Some (JArr xs))))"
  using assms
  by (auto simp: validate_array_def materials_schema_def Let_def errors_of_def create_error_def image_iff)

lemma too_long_entry_iff: "too_long_entry x \<longleftrightarrow> (\<exists>t. x = JStr t \<and> 500 < length t)"
  by (cases x) (auto simp: too_long_entry_def)

lemma materials_too_long:
  assumes "list_ex too_long_entry xs"
  shows "''Each material entry cannot exceed 500 characters'' \<in>
    d_message ` set (errors_of (validate_array [] [Key ''materials''] materials_schema (Some (JArr xs))))"
proof -
  let ?items = "a_items materials_schema"
  let ?msgs = "a_messages materials_schema @ []"
  let ?rs = "validate_items ?msgs [Key ''materials''] ?items xs"
  obtain i t where i: "i < length xs" and t: "xs ! i = JStr t" and len: "500 < length t"
    using assms
    by (auto simp: list_ex_iff too_long_entry_iff in_set_conv_nth)
  have "''Each material entry cannot exceed 500 characters'' \<in>
      d_message ` set (errors_of (validate_string ?msgs ([Key ''materials''] @ [Idx i]) ?items (Some (JStr t))))"
    by (rule too_long_item [where n = 500]) (simp_all add: materials_schema_def len)
  then have "''Each material entry cannot exceed 500 characters'' \<in> d_message ` set (errors_of (?rs ! i))"
    using i t by (simp add: validate_items_nth)
  moreover have "?rs ! i \<in> set ?rs"
    using i by (simp add: validate_items_length)
  ultimately have "''Each material entry cannot exceed 500 characters'' \<in>
      d_message ` set (concat (map errors_of ?rs))"
    by auto
  moreover define E where "E = concat (map errors_of ?rs)"
  ultimately have m: "''Each material entry cannot exceed 500 characters'' \<in> d_message ` set E"
    by simp
  then have ne: "E \<noteq> []" by auto
  have "validate_array [] [Key ''materials''] materials_schema (Some (JArr xs)) =
      Inl (E @ (if length xs \<le> 20 then [] else
        [create_error ?msgs ''array.max'' [Key ''materials''] (show_nat 20)]))"
    using ne unfolding E_def
    by (simp add: validate_array_def Let_def materials_schema_def)
  then show ?thesis
    using m by (simp add: errors_of_def)
qed

lemma validate_string_not_undefined:
  "s_presence sch \<noteq> Optional \<Longrightarrow> validate_string inh p sch x \<noteq> Inr None"
  by (cases x) (auto simp: validate_string_absent validate_string_defined split: presence.splits)

lemma validate_array_not_undefined:
  "a_presence sch \<noteq> Optional \<Longrightarrow> validate_array inh p sch x \<noteq> Inr None"
  by (cases x) (auto simp: validate_array_def Let_def split: presence.splits json.splits)

lemma errors_of_empty_string:
  "s_presence sch \<noteq> Optional \<Longrightarrow> errors_of (validate_string inh p sch x) = [] \<Longrightarrow>
     \<exists>s. validate_string inh p sch x = Inr (Some s)"
  using validate_string_errors_nonempty [of inh p sch x] validate_string_not_undefined [of sch inh p x]
  by (cases "validate_string inh p sch x") (auto simp: errors_of_def)

lemma errors_of_empty_array:
  "a_presence sch \<noteq> Optional \<Longrightarrow> errors_of (validate_array inh p sch x) = [] \<Longrightarrow>
     \<exists>s. validate_array inh p sch x = Inr (Some s)"
  using validate_array_errors_nonempty [of inh p sch x] validate_array_not_undefined [of sch inh p x]
  by (cases "validate_array inh p sch x") (auto simp: errors_of_def)

lemma schema_presences:
  "s_presence question_schema \<noteq> Optional" "s_presence citationStyle_schema \<noteq> Optional"
  "s_presence citationMode_schema \<noteq> Optional" "s_presence recency_schema \<noteq> Optional"
  "a_presence materials_schema \<noteq> Optional"
  by (simp_all add: question_schema_def citationStyle_schema_def citationMode_schema_def
      recency_schema_def materials_schema_def)

lemma six_case_other:
  "\<not> (\<exists>q s m r a. rq = Inr (Some q) \<and> rs = Inr (Some s) \<and> rm = Inr (Some m) \<and> rr = Inr (Some r)
        \<and> ra = Inr (Some a) \<and> unk = []) \<Longrightarrow>
   (case (rq, rs, rm, rr, ra, unk) of
      (Inr (Some q), Inr (Some s), Inr (Some m), Inr (Some r), Inr (Some a), []) \<Rightarrow> f q s m r a
    | _ \<Rightarrow> g) = g"
  by (auto split: sum.splits option.splits list.splits)

lemma validate_fails:
  assumes "schema_errors kvs \<noteq> []"
  shows "chatSchema_validate (Some (JObj kvs)) = Inl (schema_errors kvs)"
proof -
  let ?rq = "validate_string [] [Key ''question''] question_schema (get_prop kvs ''question'')"
  let ?rs = "validate_string [] [Key ''citationStyle''] citationStyle_schema (get_prop kvs ''citationStyle'')"
  let ?rm = "validate_string [] [Key ''citationMode''] citationMode_schema (get_prop kvs ''citationMode'')"
  let ?rr = "validate_string [] [Key ''recency''] recency_schema (get_prop kvs ''recency'')"
  let ?ra = "validate_array [] [Key ''materials''] materials_schema (get_prop kvs ''materials'')"
  have "\<not> (\<exists>q s m r a. ?rq = Inr (Some q) \<and> ?rs = Inr (Some s) \<and> ?rm = Inr (Some m)
      \<and> ?rr = Inr (Some r) \<and> ?ra = Inr (Some a) \<and> unknown_keys kvs = [])"
    using assms by (auto simp: schema_errors_def errors_of_def)
  then show ?thesis
    unfolding chatSchema_validate_def option.case json.case Let_def schema_errors_def
    by (rule six_case_other)
qed

lemma validate_succeeds:
  assumes "schema_errors kvs = []"
  shows "\<exists>v. chatSchema_validate (Some (JObj kvs)) = Inr (Some v)"
proof -
  let ?rq = "validate_string [] [Key ''question''] question_schema (get_prop kvs ''question'')"
  let ?rs = "validate_string [] [Key ''citationStyle''] citationStyle_schema (get_prop kvs ''citationStyle'')"
  let ?rm = "validate_string [] [Key ''citationMode''] citationMode_schema (get_prop kvs ''citationMode'')"
  let ?rr = "validate_string [] [Key ''recency''] recency_schema (get_prop kvs ''recency'')"
  let ?ra = "validate_array [] [Key ''materials''] materials_schema (get_prop kvs ''materials'')"
  from assms have e: "errors_of ?rq = []" "errors_of ?rs = []" "errors_of ?rm = []"
    "errors_of ?rr = []" "errors_of ?ra = []" "unknown_keys kvs = []"
    by (simp_all add: schema_errors_def)
  obtain q where q: "?rq = Inr (Some q)"
    using errors_of_empty_string [OF schema_presences(1) e(1)] by blast
  obtain s where s: "?rs = Inr (Some s)"
    using errors_of_empty_string [OF schema_presences(2) e(2)] by blast
  obtain m where m: "?rm = Inr (Some m)"
    using errors_of_empty_string [OF schema_presences(3) e(3)] by blast
  obtain r where r: "?rr = Inr (Some r)"
    using errors_of_empty_string [OF schema_presences(4) e(4)] by blast
  obtain a where a: "?ra = Inr (Some a)"
    using errors_of_empty_array [OF schema_presences(5) e(5)] by blast
  show ?thesis
    by (simp add: chatSchema_validate_def q s m r a e(6))
qed

lemma validate_value:
  assumes "chatSchema_validate (Some (JObj kvs)) = Inr (Some v)"
  shows "validate_string [] [Key ''question''] question_schema (get_prop kvs ''question'') = Inr (Some (question v))"
    and "validate_string [] [Key ''citationStyle''] citationStyle_schema (get_prop kvs ''citationStyle'') = Inr (Some (citationStyle v))"
    and "validate_string [] [Key ''citationMode''] citationMode_schema (get_prop kvs ''citationMode'') = Inr (Some (citationMode v))"
    and "validate_string [] [Key ''recency''] recency_schema (get_prop kvs ''recency'') = Inr (Some (recency v))"
    and "validate_array [] [Key ''materials''] materials_schema (get_prop kvs ''materials'') = Inr (Some (materials v))"
    and "unknown_keys kvs = []"
  using assms
  unfolding chatSchema_validate_def option.case json.case Let_def
  by (auto split: sum.splits option.splits list.splits)

lemma validate_Inl_schema_errors:
  assumes "chatSchema_validate (Some (JObj kvs)) = Inl ds"
  shows "ds = schema_errors kvs \<and> ds \<noteq> []"
proof (cases "schema_errors kvs = []")
  case True
  then show ?thesis using validate_succeeds [OF True] assms by auto
next
  case False
  then show ?thesis using validate_fails [OF False] assms by auto
qed


lemma validate_undefined: "chatSchema_validate None = Inr None"
  by (simp add: chatSchema_validate_def)

lemma validate_Inl_nonempty: "chatSchema_validate body = Inl ds \<Longrightarrow> ds \<noteq> []"
proof (cases body)
  case None
  assume "chatSchema_validate body = Inl ds"
  then show ?thesis using None by (simp add: validate_undefined)
next
  case (Some b)
  assume v: "chatSchema_validate body = Inl ds"
  show ?thesis
  proof (cases b)
    case (JObj kvs)
    then show ?thesis using validate_Inl_schema_errors v Some by blast
  qed (use v Some in \<open>auto simp: chatSchema_validate_def\<close>)
qed

lemma enum_absent_or_member:
  assumes "s_valid sch = Some vs" and "s_presence sch = Default d" and "d \<in> set vs"
    and "validate_string inh p sch x = Inr (Some s)"
  shows "s \<in> set vs \<and> (x = None \<and> s = d \<or> x = Some (JStr s))"
proof (cases x)
  case None
  then show ?thesis using assms by (simp add: validate_string_absent)
next
  case (Some y)
  then show ?thesis using enum_value [OF assms(1), of inh p y "Some s"] assms(4) by auto
qed

lemma enum_schemas:
  "s_valid citationStyle_schema = Some [''apa'', ''mla'', ''chicago'']"
  "s_presence citationStyle_schema = Default ''apa''"
  "s_valid citationMode_schema = Some [''strict'', ''balanced'', ''flexible'']"
  "s_presence citationMode_schema = Default ''balanced''"
  "s_valid recency_schema = Some [''5'', ''10'', ''15'', ''all'']"
  "s_presence recency_schema = Default ''10''"
  by (simp_all add: citationStyle_schema_def citationMode_schema_def recency_schema_def)

lemma validated_is_object:
  "chatSchema_validate body = Inr (Some v) \<Longrightarrow> \<exists>kvs. body = Some (JObj kvs)"
proof (cases body)
  case None
  assume "chatSchema_validate body = Inr (Some v)"
  then show ?thesis using None by (simp add: validate_undefined)
next
  case (Some b)
  assume "chatSchema_validate body = Inr (Some v)"
  then show ?thesis using Some by (cases b) (auto simp: chatSchema_validate_def)
qed

lemma validated_recency:
  assumes "chatSchema_validate (Some (JObj kvs)) = Inr (Some v)"
  shows "recency v \<in> set [''5'', ''10'', ''15'', ''all'']
    \<and> (get_prop kvs ''recency'' = None \<and> recency v = ''10''
       \<or> get_prop kvs ''recency'' = Some (JStr (recency v)))"
  by (rule enum_absent_or_member [OF enum_schemas(5) enum_schemas(6) _ validate_value(4) [OF assms]]) simp

lemma validated_citationStyle:
  assumes "chatSchema_validate (Some (JObj kvs)) = Inr (Some v)"
  shows "citationStyle v \<in> set [''apa'', ''mla'', ''chicago'']
    \<and> (get_prop kvs ''citationStyle'' = None \<and> citationStyle v = ''apa''
       \<or> get_prop kvs ''citationStyle'' = Some (JStr (citationStyle v)))"
  by (rule enum_absent_or_member [OF enum_schemas(1) enum_schemas(2) _ validate_value(2) [OF assms]]) simp

lemma validated_citationMode:
  assumes "chatSchema_validate (Some (JObj kvs)) = Inr (Some v)"
  shows "citationMode v \<in> set [''strict'', ''balanced'', ''flexible'']
    \<and> (get_prop kvs ''citationMode'' = None \<and> citationMode v = ''balanced''
       \<or> get_prop kvs ''citationMode'' = Some (JStr (citationMode v)))"
  by (rule enum_absent_or_member [OF enum_schemas(3) enum_schemas(4) _ validate_value(3) [OF assms]]) simp

lemma join_differs:
  assumes "xs \<noteq> []" and "ys \<noteq> []" and "a \<noteq> b"
  shows "join (xs @ a # ys) sep \<noteq> join (xs @ b # ys) sep"
  using assms by (simp add: join_append join_Cons_nonempty)

lemma systemPrompt_recency_differs:
  assumes "recency_clause (recency v) \<noteq> recency_clause r"
  shows "systemPrompt (v\<lparr>recency := r\<rparr>) \<noteq> systemPrompt v"
proof -
  let ?xs = "take 14 (prompt_lines v)" and ?ys = "drop 15 (prompt_lines v)"
  have a: "prompt_lines v = ?xs @ (''- Recency preference: '' @ recency_clause (recency v) @ ''.'') # ?ys"
    by (simp add: prompt_lines_def)
  have b: "prompt_lines (v\<lparr>recency := r\<rparr>) = ?xs @ (''- Recency preference: '' @ recency_clause r @ ''.'') # ?ys"
    by (simp add: prompt_lines_def)
  have x: "?xs \<noteq> []" and y: "?ys \<noteq> []"
    by (simp_all add: prompt_lines_def)
  have n: "''- Recency preference: '' @ recency_clause r @ ''.''
      \<noteq> ''- Recency preference: '' @ recency_clause (recency v) @ ''.''"
    using assms by auto
  show ?thesis
    unfolding systemPrompt_lines
    by (subst a, subst b) (rule join_differs [OF x y n])
qed

lemma prompt_has_line: "l \<in> set (prompt_lines v) \<Longrightarrow> str_includes (systemPrompt v) l"
  by (simp add: str_includes_def systemPrompt_lines sublist_join_member)

lemma sublist_trans': "sublist a b \<Longrightarrow> sublist b c \<Longrightarrow> sublist a c"
  by (rule sublist_order.order_trans)

lemma prompt_recency_clause: "str_includes (systemPrompt v) (recency_clause (recency v))"
proof -
  have "str_includes (systemPrompt v) (''- Recency preference: '' @ recency_clause (recency v) @ ''.'')"
    by (rule prompt_has_line) (simp add: prompt_lines_def)
  moreover have "sublist (recency_clause (recency v)) (''- Recency preference: '' @ recency_clause (recency v) @ ''.'')"
    by (rule sublist_appendI)
  ultimately show ?thesis
    unfolding str_includes_def by (rule sublist_trans'[rotated])
qed

lemma sep_join_bullets: "ms \<noteq> [] \<Longrightarrow> sep @ join ms sep = concat (map (\<lambda>m. sep @ m) ms)"
proof (induction ms)
  case Nil
  then show ?case by simp
next
  case (Cons m ms)
  then show ?case by (cases ms) auto
qed

lemma materials_clause_nonempty:
  "ms \<noteq> [] \<Longrightarrow>
    materials_clause ms = ''- User has indicated the following course materials:'' @ bullets ms"
  using sep_join_bullets [of ms "''\<newline>  - ''"]
  by (simp add: materials_clause_def bullets_def)

lemma prompt_materials_section:
  "str_includes (systemPrompt v) (''Course materials:'' @ ''\<newline>'' @ materials_clause (materials v))"
  unfolding str_includes_def systemPrompt_lines
  by (rule sublist_join_adjacent [where xs = "take 16 (prompt_lines v)" and ys = "drop 18 (prompt_lines v)"])
    (simp add: prompt_lines_def)

lemma map_enumerate_item_value:
  assumes "\<forall>r \<in> set (map (\<lambda>(i, x). validate_string msgs (p @ [Idx i]) sch (Some x)) (enumerate n xs)). errors_of r = []"
    and "s_valid sch = None"
  shows "xs = map JStr (concat (map item_value (map (\<lambda>(i, x). validate_string msgs (p @ [Idx i]) sch (Some x)) (enumerate n xs))))"
  using assms
proof (induction xs arbitrary: n)
  case Nil
  then show ?case by simp
next
  case (Cons x xs)
  have e: "errors_of (validate_string msgs (p @ [Idx n]) sch (Some x)) = []"
    using Cons.prems(1) by simp
  have "\<exists>s. x = JStr s \<and> validate_string msgs (p @ [Idx n]) sch (Some x) = Inr (Some s)"
    using e Cons.prems(2)
    by (cases x) (auto simp: validate_string_def Let_def errors_of_def split: if_splits)
  then obtain s where s: "x = JStr s" "validate_string msgs (p @ [Idx n]) sch (Some x) = Inr (Some s)"
    by blast
  have "xs = map JStr (concat (map item_value (map (\<lambda>(i, x). validate_string msgs (p @ [Idx i]) sch (Some x)) (enumerate (Suc n) xs))))"
    using Cons.prems by (intro Cons.IH) auto
  moreover have "item_value (Inr (Some s)) = [s]"
    by (simp add: item_value_def)
  ultimately show ?case using s by simp
qed

lemma validated_materials:
  assumes "chatSchema_validate (Some (JObj kvs)) = Inr (Some v)"
  shows "get_prop kvs ''materials'' = None \<and> materials v = []
    \<or> get_prop kvs ''materials'' = Some (JArr (map JStr (materials v)))"
proof (cases "get_prop kvs ''materials''")
  case None
  then show ?thesis using validate_value(5) [OF assms] by (simp add: materials_absent)
next
  case (Some y)
  have r: "validate_array [] [Key ''materials''] materials_schema (Some y) = Inr (Some (materials v))"
    using validate_value(5) [OF assms] Some by simp
  then obtain xs where y: "y = JArr xs"
    by (cases y) (auto simp: validate_array_def)
  let ?rs = "validate_items (a_messages materials_schema @ []) [Key ''materials''] (a_items materials_schema) xs"
  have c: "concat (map errors_of ?rs) = []" and m: "materials v = concat (map item_value ?rs)"
    using r unfolding y by (auto simp: validate_array_def Let_def split: if_splits)
  have "xs = map JStr (concat (map item_value ?rs))"
    unfolding validate_items_def
    by (rule map_enumerate_item_value) (use c in \<open>auto simp: validate_items_def materials_schema_def\<close>)
  then show ?thesis using Some y m by simp
qed

lemma handler_on_failure:
  "chatSchema_validate body = Inl ds \<Longrightarrow>
     chat_handler generateText body = \<lparr>sent = Some (validation_failed ds), calls = []\<rparr>"
  by (simp add: chat_handler_def validation_failed_def)

lemma enum_reject_message:
  assumes "s_valid sch = Some vs" and "y \<notin> JStr ` set vs" and "map_of (s_messages sch) ''any.only'' = Some m"
  shows "m \<in> d_message ` set (errors_of (validate_string [] p sch (Some y)))"
proof -
  obtain es where "validate_string [] p sch (Some y) =
      Inl (create_error (s_messages sch @ []) ''any.only'' p (show_valids vs) # es)"
    using enum_reject [OF assms(1,2)] by blast
  then show ?thesis using assms(3) by (simp add: errors_of_def create_error_def)
qed

lemma violated_rules_reported: "set (violated_rules kvs) \<subseteq> d_message ` set (schema_errors kvs)"
proof -
  let ?rq = "validate_string [] [Key ''question''] question_schema (get_prop kvs ''question'')"
  let ?rs = "validate_string [] [Key ''citationStyle''] citationStyle_schema (get_prop kvs ''citationStyle'')"
  let ?rm = "validate_string [] [Key ''citationMode''] citationMode_schema (get_prop kvs ''citationMode'')"
  let ?rr = "validate_string [] [Key ''recency''] recency_schema (get_prop kvs ''recency'')"
  let ?ra = "validate_array [] [Key ''materials''] materials_schema (get_prop kvs ''materials'')"
  have q: \<open>set (case get_prop kvs ''question'' of
       None \<Rightarrow> [''Question is required'']
     | Some (JStr s) \<Rightarrow>
         if s = [] then [''"question" is not allowed to be empty'']
         else if length s < 10 then [''Question must be at least 10 characters long'']
         else if 5000 < length s then [''Question cannot exceed 5000 characters'']
         else []
     | Some _ \<Rightarrow> [''Question must be a string'']) \<subseteq> d_message ` set (errors_of ?rq)\<close>
    using question_messages [of "get_prop kvs ''question''"] by (metis set_map subset_refl)
  have s: "set (case get_prop kvs ''citationStyle'' of
       None \<Rightarrow> []
     | Some x \<Rightarrow> if x \<in> set [JStr ''apa'', JStr ''mla'', JStr ''chicago''] then []
                else [''Citation style must be one of: apa, mla, chicago'']) \<subseteq> d_message ` set (errors_of ?rs)"
  proof (cases "get_prop kvs ''citationStyle''")
    case None
    then show ?thesis by simp
  next
    case (Some x)
    show ?thesis
      using enum_reject_message [OF enum_schemas(1), of x "''Citation style must be one of: apa, mla, chicago''" "[Key ''citationStyle'']"]
      by (auto simp: Some citationStyle_schema_def)
  qed
  have m: "set (case get_prop kvs ''citationMode'' of
       None \<Rightarrow> []
     | Some x \<Rightarrow> if x \<in> set [JStr ''strict'', JStr ''balanced'', JStr ''flexible''] then []
                else [''Citation mode must be one of: strict, balanced, flexible'']) \<subseteq> d_message ` set (errors_of ?rm)"
  proof (cases "get_prop kvs ''citationMode''")
    case None
    then show ?thesis by simp
  next
    case (Some x)
    show ?thesis
      using enum_reject_message [OF enum_schemas(3), of x "''Citation mode must be one of: strict, balanced, flexible''" "[Key ''citationMode'']"]
      by (auto simp: Some citationMode_schema_def)
  qed
  have r: "set (case get_prop kvs ''recency'' of
       None \<Rightarrow> []
     | Some x \<Rightarrow> if x \<in> set [JStr ''5'', JStr ''10'', JStr ''15'', JStr ''all''] then []
                else [''Recency must be one of: 5, 10, 15, all'']) \<subseteq> d_message ` set (errors_of ?rr)"
  proof (cases "get_prop kvs ''recency''")
    case None
    then show ?thesis by simp
  next
    case (Some x)
    show ?thesis
      using enum_reject_message [OF enum_schemas(5), of x "''Recency must be one of: 5, 10, 15, all''" "[Key ''recency'']"]
      by (auto simp: Some recency_schema_def)
  qed
  have a: "set (case get_prop kvs ''materials'' of
       Some (JArr xs) \<Rightarrow>
         (if list_ex too_long_entry xs then [''Each material entry cannot exceed 500 characters''] else []) @
         (if 20 < length xs then [''Materials cannot exceed 20 items''] else [])
     | _ \<Rightarrow> []) \<subseteq> d_message ` set (errors_of ?ra)"
  proof (cases "get_prop kvs ''materials''")
    case None
    then show ?thesis by simp
  next
    case (Some y)
    show ?thesis
      unfolding Some
      using materials_too_long materials_too_many
      by (cases y) auto
  qed
  show ?thesis
    unfolding violated_rules_def schema_errors_def
    using q s m r a by (simp only: set_append image_Un) blast
qed

lemma violations_fail:
  "violated_rules kvs \<noteq> [] \<Longrightarrow> chatSchema_validate (Some (JObj kvs)) = Inl (schema_errors kvs)"
proof -
  assume "violated_rules kvs \<noteq> []"
  then have "schema_errors kvs \<noteq> []"
    using violated_rules_reported [of kvs] by (cases "violated_rules kvs") auto
  then show ?thesis by (rule validate_fails)
qed

lemma violated_rule_answered:
  assumes "m \<in> set (violated_rules kvs)"
  shows "\<exists>ds. chat_handler generateText (Some (JObj kvs)) = \<lparr>sent = Some (validation_failed ds), calls = []\<rparr>
    \<and> m \<in> d_message ` set ds"
proof -
  have "violated_rules kvs \<noteq> []" using assms by auto
  then have "chatSchema_validate (Some (JObj kvs)) = Inl (schema_errors kvs)"
    by (rule violations_fail)
  then show ?thesis
    using handler_on_failure [of "Some (JObj kvs)" "schema_errors kvs" generateText]
      violated_rules_reported [of kvs] assms
    by blast
qed

lemma unknown_key_error:
  assumes "k \<in> fst ` set kvs" and "k \<notin> set schema_keys" and "k \<noteq> ''__proto__''"
  shows "create_error [] ''object.unknown'' [Key k] [] \<in> set (schema_errors kvs)"
proof -
  have "k \<in> fst ` set (own_props kvs)"
    using assms(1,3) by (force simp: own_props_def)
  then show ?thesis
    using assms(2) by (auto simp: schema_errors_def unknown_keys_def)
qed

lemma unknown_key_message:
  \<open>d_message (create_error [] ''object.unknown'' [Key k] []) =
     ''"'' @ (if k = [] then ''value'' else k) @ ''" is not allowed''\<close>
  by (simp add: create_error_def default_message_def label_key)

lemma map_of_omit: "map_of (omit ks kvs) f = (if f \<in> set ks then None else map_of kvs f)"
  by (induction kvs) (auto simp: omit_def)

lemma own_props_omit: "own_props (omit ks kvs) = omit ks (own_props kvs)"
  by (induction kvs) (auto simp: own_props_def omit_def)

lemma get_prop_omit:
  assumes "''__proto__'' \<notin> set ks"
  shows "get_prop (omit ks kvs) f =
    (if f \<in> set ks then map_of (proto_props kvs) f else get_prop kvs f)"
proof -
  have h: "proto_props (omit ks kvs) = proto_props kvs"
    using assms by (simp add: proto_props_def map_of_omit)
  show ?thesis
    unfolding get_prop_def own_props_omit map_of_omit h by simp
qed

lemma default_keys: "map_of default_entries k \<noteq> None \<Longrightarrow> k \<in> set schema_keys"
  by (auto simp: default_entries_def schema_keys_def split: if_splits)

lemma unknown_keys_omit:
  "set ks \<subseteq> set schema_keys \<Longrightarrow> unknown_keys (omit ks kvs) = unknown_keys kvs"
proof -
  assume ks: "set ks \<subseteq> set schema_keys"
  have "filter (\<lambda>k. k \<notin> set schema_keys) (map fst (filter (\<lambda>(k, x). k \<notin> set ks) xs))
      = filter (\<lambda>k. k \<notin> set schema_keys) (map fst xs)" for xs :: "(string \<times> json) list"
    using ks by (induction xs) auto
  then show ?thesis unfolding unknown_keys_def own_props_omit unfolding omit_def by simp
qed

lemma default_validates_as_absent:
  assumes "supplies_defaults ks kvs" and "f \<in> set ks"
  shows "f \<noteq> ''question''"
    and "f = ''citationStyle'' \<Longrightarrow> get_prop kvs f = Some (JStr ''apa'')"
    and "f = ''citationMode'' \<Longrightarrow> get_prop kvs f = Some (JStr ''balanced'')"
    and "f = ''recency'' \<Longrightarrow> get_prop kvs f = Some (JStr ''10'')"
    and "f = ''materials'' \<Longrightarrow> get_prop kvs f = Some (JArr [])"
  using assms by (auto simp: supplies_defaults_def list_all_iff default_entries_def)

lemma omit_same_validation:
  assumes "supplies_defaults ks kvs" and "inherits_none ks kvs"
  shows "chatSchema_validate (Some (JObj (omit ks kvs))) = chatSchema_validate (Some (JObj kvs))"
proof -
  have sub: "set ks \<subseteq> set schema_keys"
    using assms(1) default_keys by (auto simp: supplies_defaults_def list_all_iff)
  then have "''__proto__'' \<notin> set ks"
    by (auto simp: schema_keys_def)
  then have g: "get_prop (omit ks kvs) f = (if f \<in> set ks then None else get_prop kvs f)" for f
    using assms(2) by (auto simp: get_prop_omit inherits_none_def list_all_iff)
  have q: "get_prop (omit ks kvs) ''question'' = get_prop kvs ''question''"
    using default_validates_as_absent(1) [OF assms(1)] by (auto simp: g)
  have s: "validate_string [] [Key ''citationStyle''] citationStyle_schema (get_prop (omit ks kvs) ''citationStyle'')
      = validate_string [] [Key ''citationStyle''] citationStyle_schema (get_prop kvs ''citationStyle'')"
    using default_validates_as_absent(2) [OF assms(1), of "''citationStyle''"]
    by (simp add: g validate_string_absent enum_accept [OF enum_schemas(1)] enum_schemas)
  have m: "validate_string [] [Key ''citationMode''] citationMode_schema (get_prop (omit ks kvs) ''citationMode'')
      = validate_string [] [Key ''citationMode''] citationMode_schema (get_prop kvs ''citationMode'')"
    using default_validates_as_absent(3) [OF assms(1), of "''citationMode''"]
    by (simp add: g validate_string_absent enum_accept [OF enum_schemas(3)] enum_schemas)
  have r: "validate_string [] [Key ''recency''] recency_schema (get_prop (omit ks kvs) ''recency'')
      = validate_string [] [Key ''recency''] recency_schema (get_prop kvs ''recency'')"
    using default_validates_as_absent(4) [OF assms(1), of "''recency''"]
    by (simp add: g validate_string_absent enum_accept [OF enum_schemas(5)] enum_schemas)
  have a: "validate_array [] [Key ''materials''] materials_schema (get_prop (omit ks kvs) ''materials'')
      = validate_array [] [Key ''materials''] materials_schema (get_prop kvs ''materials'')"
    using default_validates_as_absent(5) [OF assms(1), of "''materials''"]
    by (simp add: g materials_absent materials_empty)
  show ?thesis
    unfolding chatSchema_validate_def option.case json.case q s m r a unknown_keys_omit [OF sub] ..
qed

section \<open>Properties of the handler\<close>

lemma message_includes_mentions: "message_includes err t = mentions err t"
  by (cases "err_message err") (simp_all add: message_includes_def mentions_def str_includes_def)

lemma race_timeout:
  "Promise_race [(1, p), (0, timeoutPromise)] =
    (case p of Never \<Rightarrow> timeoutPromise
     | Settles t a \<Rightarrow> if t < 30000 then Settles t a else timeoutPromise)"
  by (simp add: Promise_race_def timeoutPromise_def split: promise.splits)

lemma chat_catch_timeout:
  "chat_catch \<lparr>err_message = Some ''Request timeout'', err_code = None, err_status = None\<rparr>
    = \<lparr>res_status = 408, res_body = error_body ''Request timeout''
         ''The request took too long to process. Please try again.''\<rparr>"
  by (simp add: chat_catch_def)



lemma chat_handler_responds: "sent (chat_handler generateText body) \<noteq> None"
proof (cases "chatSchema_validate body")
  case (Inl ds)
  then show ?thesis by (simp add: chat_handler_def)
next
  case (Inr r)
  show ?thesis
  proof (cases r)
    case None
    then show ?thesis using Inr by (simp add: chat_handler_def)
  next
    case (Some v)
    have "Promise_race [(1, generateText (systemPrompt v) (question v)), (0, timeoutPromise)] \<noteq> Never"
      unfolding race_timeout by (simp add: timeoutPromise_def split: promise.splits)
    then show ?thesis
      by (simp add: chat_handler_def Inr Some split: promise.splits settled.splits)
  qed
qed

lemma example_valid:
  "chatSchema_validate (Some (JObj [(''question'', JStr ''What is exposure therapy?'')])) =
    Inr (Some \<lparr>question = ''What is exposure therapy?'', citationStyle = ''apa'',
         citationMode = ''balanced'', recency = ''10'', materials = []\<rparr>)"
  by code_simp

section \<open>Verified properties\<close>



text \<open>
  C2. The \<open>catch\<close> block answers as the table of the response classifier says: the
  kind of the failure decides the status code and the \<open>error\<close> text, and the body has
  exactly the keys \<open>error\<close> and \<open>message\<close>.  Timeout gives 408, Unreachable 503,
  Misconfigured 500, Throttled 429, BadModelConfig 500 and any other failure 500.  The
  kind is that of the first test, on the failure's message, code and status, that the
  failure passes; the tests on the message look for a text anywhere in it: a failure
  whose message has "network" in it, whatever stands before and after, is answered 503.
  This is the answer to a valid request whose remote call is rejected before the timeout
  bound.
\<close>

theorem chat_catch_table:
  "chat_catch err =
    \<lparr>res_status = table_status (failure_kind_of err),
     res_body = JObj [(''error'', JStr (table_error (failure_kind_of err))),
                      (''message'', JStr (table_message (failure_kind_of err)))]\<rparr>
   \<and> (err_message err = Some (pre @ ''network'' @ post) \<longrightarrow>
        chat_catch err =
          \<lparr>res_status = 503,
           res_body = JObj [(''error'', JStr ''Service unavailable''),
             (''message'', JStr ''Unable to connect to AI service. Please try again later.'')]\<rparr>)
   \<and> (chatSchema_validate body = Inr (Some v)
        \<and> generateText (systemPrompt v) (question v) = Settles t (Rejected err) \<and> t < 30000 \<longrightarrow>
      sent (chat_handler generateText body) = Some (chat_catch err))"
proof (intro conjI impI)
  show "chat_catch err =
    \<lparr>res_status = table_status (failure_kind_of err),
     res_body = JObj [(''error'', JStr (table_error (failure_kind_of err))),
                      (''message'', JStr (table_message (failure_kind_of err)))]\<rparr>"
    by (simp add: chat_catch_def failure_kind_of_def kind_tests_def error_body_def
        message_includes_mentions)
next
  assume m: "err_message err = Some (pre @ ''network'' @ post)"
  have "\<not> sublist ''network'' ''Request timeout''"
    by code_simp
  then have "pre @ ''network'' @ post \<noteq> ''Request timeout''"
    by (metis sublist_appendI)
  moreover have "sublist ''network'' (pre @ ''network'' @ post)"
    by (rule sublist_appendI)
  then have "message_includes err ''network''"
    unfolding message_includes_def str_includes_def m by simp
  ultimately show "chat_catch err =
      \<lparr>res_status = 503,
       res_body = JObj [(''error'', JStr ''Service unavailable''),
         (''message'', JStr ''Unable to connect to AI service. Please try again later.'')]\<rparr>"
    using m by (simp add: chat_catch_def error_body_def)
next
  assume a: "chatSchema_validate body = Inr (Some v)
    \<and> generateText (systemPrompt v) (question v) = Settles t (Rejected err) \<and> t < 30000"
  then have "Promise_race [(1, generateText (systemPrompt v) (question v)), (0, timeoutPromise)]
      = Settles t (Rejected err)"
    unfolding race_timeout by simp
  then show "sent (chat_handler generateText body) = Some (chat_catch err)"
    using a by (simp add: chat_handler_def)
qed

theorem chat_catch_table_witness:
  "chat_catch \<lparr>err_message = Some ''getaddrinfo ENOTFOUND api.openai.com'',
       err_code = Some ''ENOTFOUND'', err_status = None\<rparr>
     = \<lparr>res_status = 503, res_body = JObj [(''error'', JStr ''Service unavailable''),
          (''message'', JStr ''Unable to connect to AI service. Please try again later.'')]\<rparr>
   \<and> chat_catch \<lparr>err_message = Some ''a network error occurred'', err_code = None, err_status = None\<rparr>
     = \<lparr>res_status = 503, res_body = JObj [(''error'', JStr ''Service unavailable''),
          (''message'', JStr ''Unable to connect to AI service. Please try again later.'')]\<rparr>
   \<and> sent (chat_handler
       (\<lambda>s p. Settles 800 (Rejected \<lparr>err_message = Some ''Incorrect API key provided'',
          err_code = None, err_status = None\<rparr>))
       (Some (JObj [(''question'', JStr ''What is exposure therapy?'')])))
     = Some \<lparr>res_status = 500, res_body = JObj [(''error'', JStr ''Configuration error''),
          (''message'', JStr ''The service is currently unavailable. Please contact support.'')]\<rparr>"
proof -
  let ?e1 = "\<lparr>err_message = Some ''getaddrinfo ENOTFOUND api.openai.com'',
      err_code = Some ''ENOTFOUND'', err_status = None\<rparr>"
  let ?e2 = "\<lparr>err_message = Some ''Incorrect API key provided'', err_code = None, err_status = None\<rparr>"
  let ?e3 = "\<lparr>err_message = Some ''a network error occurred'', err_code = None, err_status = None\<rparr>"
  have k1: "failure_kind_of ?e1 = Unreachable"
    by code_simp
  have k2: "failure_kind_of ?e2 = Misconfigured"
    by code_simp
  have a: "chat_catch ?e1 = \<lparr>res_status = 503, res_body = JObj [(''error'', JStr ''Service unavailable''),
          (''message'', JStr ''Unable to connect to AI service. Please try again later.'')]\<rparr>"
    using chat_catch_table [of ?e1] by (simp add: k1)
  have b: "chat_catch ?e2 = \<lparr>res_status = 500, res_body = JObj [(''error'', JStr ''Configuration error''),
          (''message'', JStr ''The service is currently unavailable. Please contact support.'')]\<rparr>"
    using chat_catch_table [of ?e2] by (simp add: k2)
  have c: "sent (chat_handler (\<lambda>s p. Settles 800 (Rejected ?e2))
      (Some (JObj [(''question'', JStr ''What is exposure therapy?'')]))) = Some (chat_catch ?e2)"
    using chat_catch_table [of ?e2 _ _ "Some (JObj [(''question'', JStr ''What is exposure therapy?'')])"
        "\<lparr>question = ''What is exposure therapy?'', citationStyle = ''apa'',
         citationMode = ''balanced'', recency = ''10'', materials = []\<rparr>"
        "\<lambda>s p. Settles 800 (Rejected ?e2)" 800] example_valid
    by simp
  have d: "chat_catch ?e3 = \<lparr>res_status = 503, res_body = JObj [(''error'', JStr ''Service unavailable''),
          (''message'', JStr ''Unable to connect to AI service. Please try again later.'')]\<rparr>"
    using chat_catch_table [of ?e3 "''a ''" "'' error occurred''", THEN conjunct2, THEN conjunct1]
    by simp
  show ?thesis using a b c d by simp
qed

text \<open>
  C3. For a valid request whose remote call has not settled within 30000 milliseconds
  (it settles later, fulfilled or rejected, or never), the handler answers 408 with
  \<open>{error: "Request timeout", message}\<close>.  The answer does not depend on the late result,
  and the remote service has been called once: nothing is retried.
\<close>

theorem timeout_gives_408:
  assumes "chatSchema_validate body = Inr (Some v)"
    and "\<not> settled_within 30000 (generateText (systemPrompt v) (question v))"
  shows "chat_handler generateText body =
    \<lparr>sent = Some \<lparr>res_status = 408,
        res_body = JObj [(''error'', JStr ''Request timeout''),
          (''message'', JStr ''The request took too long to process. Please try again.'')]\<rparr>,
     calls = [(systemPrompt v, question v)]\<rparr>"
proof -
  have "Promise_race [(1, generateText (systemPrompt v) (question v)), (0, timeoutPromise)]
      = timeoutPromise"
    using assms(2) unfolding race_timeout
    by (cases "generateText (systemPrompt v) (question v)") (simp_all add: settled_within_def)
  then show ?thesis
    using assms(1) chat_catch_timeout
    by (simp add: chat_handler_def timeoutPromise_def error_body_def)
qed

theorem timeout_gives_408_witness:
  "sent (chat_handler (\<lambda>s p. Settles 45000 (Fulfilled ''a late answer''))
      (Some (JObj [(''question'', JStr ''What is exposure therapy?'')]))) =
    Some \<lparr>res_status = 408,
        res_body = JObj [(''error'', JStr ''Request timeout''),
          (''message'', JStr ''The request took too long to process. Please try again.'')]\<rparr>"
proof -
  have n: "\<not> settled_within 30000 ((\<lambda>s p. Settles 45000 (Fulfilled ''a late answer''))
      (systemPrompt \<lparr>question = ''What is exposure therapy?'', citationStyle = ''apa'',
         citationMode = ''balanced'', recency = ''10'', materials = []\<rparr>)
      (question \<lparr>question = ''What is exposure therapy?'', citationStyle = ''apa'',
         citationMode = ''balanced'', recency = ''10'', materials = []\<rparr>))"
    by (simp add: settled_within_def)
  show ?thesis
    using timeout_gives_408 [OF example_valid n] by simp
qed

text \<open>
  C4. A request that fails validation never reaches the remote service: the handler has
  answered 400 and made no call.  If the handler makes a call, the body has passed
  validation, and the call carries the system instruction built from the validated value.
\<close>

theorem validation_failure_makes_no_call:
  "(chatSchema_validate body = Inl ds \<longrightarrow>
      chat_handler generateText body = \<lparr>sent = Some (validation_failed ds), calls = []\<rparr>)
   \<and> (calls (chat_handler generateText body) \<noteq> [] \<longrightarrow>
      (\<exists>v. chatSchema_validate body = Inr (Some v)
         \<and> calls (chat_handler generateText body) = [(systemPrompt v, question v)]))"
proof (cases "chatSchema_validate body")
  case (Inl es)
  then show ?thesis by (simp add: chat_handler_def validation_failed_def)
next
  case (Inr r)
  then show ?thesis by (cases r) (simp_all add: chat_handler_def)
qed

theorem validation_failure_makes_no_call_witness:
  "calls (chat_handler (\<lambda>s p. Settles 1200 (Fulfilled ''an answer'')) (Some (JObj [(''question'', JStr ''short'')]))) = []
   \<and> (\<exists>v. chatSchema_validate (Some (JObj [(''question'', JStr ''What is exposure therapy?'')])) = Inr (Some v)
        \<and> calls (chat_handler (\<lambda>s p. Settles 1200 (Fulfilled ''an answer''))
             (Some (JObj [(''question'', JStr ''What is exposure therapy?'')]))) = [(systemPrompt v, question v)])"
proof -
  have bad: "chatSchema_validate (Some (JObj [(''question'', JStr ''short'')])) =
      Inl [\<lparr>d_message = ''Question must be at least 10 characters long'',
            d_path = [Key ''question''], d_type = ''string.min''\<rparr>]"
    by code_simp
  have good: "calls (chat_handler (\<lambda>s p. Settles 1200 (Fulfilled ''an answer''))
      (Some (JObj [(''question'', JStr ''What is exposure therapy?'')]))) \<noteq> []"
    by (simp add: chat_handler_def example_valid)
  show ?thesis
    using validation_failure_makes_no_call [of "Some (JObj [(''question'', JStr ''short'')])" _
        "\<lambda>s p. Settles 1200 (Fulfilled ''an answer'')"] bad
      validation_failure_makes_no_call [of "Some (JObj [(''question'', JStr ''What is exposure therapy?'')])" "[]"
        "\<lambda>s p. Settles 1200 (Fulfilled ''an answer'')"] good
    by simp
qed

text \<open>
  C5. Omitting optional fields is the same as supplying their defaults, unless the body
  hands a value down through \<open>__proto__\<close>.  If a valid body supplies, for every key of
  \<open>ks\<close>, the default value of that optional field (\<open>"apa"\<close>, \<open>"balanced"\<close>, \<open>"10"\<close>, the
  empty list), and no object under its key \<open>__proto__\<close> has a property for a key of \<open>ks\<close>,
  then the body without the keys of \<open>ks\<close> is valid too and gives the same system
  instruction.  With such a property the omitted field is read from it, as the example
  after the theorem shows: \<open>recency\<close> omitted is then \<open>"all"\<close>, not the default.
\<close>

theorem defaults_give_same_prompt:
  assumes "supplies_defaults ks kvs" and "inherits_none ks kvs"
    and "chatSchema_validate (Some (JObj kvs)) = Inr (Some v)"
  shows "\<exists>v'. chatSchema_validate (Some (JObj (omit ks kvs))) = Inr (Some v')
    \<and> systemPrompt v' = systemPrompt v"
  using omit_same_validation [OF assms(1,2)] assms(3) by simp

theorem defaults_give_same_prompt_witness:
  "\<exists>v'. chatSchema_validate (Some (JObj [(''question'', JStr ''What is exposure therapy?'')])) = Inr (Some v')
     \<and> systemPrompt v' = systemPrompt \<lparr>question = ''What is exposure therapy?'', citationStyle = ''apa'',
         citationMode = ''balanced'', recency = ''10'', materials = []\<rparr>"
proof -
  let ?kvs = "[(''citationStyle'', JStr ''apa''), (''question'', JStr ''What is exposure therapy?''),
      (''recency'', JStr ''10''), (''materials'', JArr []), (''citationMode'', JStr ''balanced'')]"
  let ?ks = "[''materials'', ''citationStyle'', ''citationMode'', ''recency'']"
  have sd: "supplies_defaults ?ks ?kvs" by code_simp
  have nh: "inherits_none ?ks ?kvs" by code_simp
  have v: "chatSchema_validate (Some (JObj ?kvs)) = Inr (Some \<lparr>question = ''What is exposure therapy?'',
      citationStyle = ''apa'', citationMode = ''balanced'', recency = ''10'', materials = []\<rparr>)"
    by code_simp
  have o: "omit ?ks ?kvs = [(''question'', JStr ''What is exposure therapy?'')]" by code_simp
  show ?thesis
    using defaults_give_same_prompt [OF sd nh v] unfolding o .
qed

theorem defaults_inherited_counterexample:
  "supplies_defaults [''recency'']
     [(''question'', JStr ''What is exposure therapy?''), (''recency'', JStr ''10''),
      (''__proto__'', JObj [(''recency'', JStr ''all'')])]
   \<and> chatSchema_validate (Some (JObj
       [(''question'', JStr ''What is exposure therapy?''), (''recency'', JStr ''10''),
        (''__proto__'', JObj [(''recency'', JStr ''all'')])]))
     = Inr (Some \<lparr>question = ''What is exposure therapy?'', citationStyle = ''apa'',
         citationMode = ''balanced'', recency = ''10'', materials = []\<rparr>)
   \<and> chatSchema_validate (Some (JObj (omit [''recency'']
       [(''question'', JStr ''What is exposure therapy?''), (''recency'', JStr ''10''),
        (''__proto__'', JObj [(''recency'', JStr ''all'')])])))
     = Inr (Some \<lparr>question = ''What is exposure therapy?'', citationStyle = ''apa'',
         citationMode = ''balanced'', recency = ''all'', materials = []\<rparr>)
   \<and> systemPrompt \<lparr>question = ''What is exposure therapy?'', citationStyle = ''apa'',
         citationMode = ''balanced'', recency = ''all'', materials = []\<rparr>
     \<noteq> systemPrompt \<lparr>question = ''What is exposure therapy?'', citationStyle = ''apa'',
         citationMode = ''balanced'', recency = ''10'', materials = []\<rparr>"
proof -
  let ?kvs = "[(''question'', JStr ''What is exposure therapy?''), (''recency'', JStr ''10''),
      (''__proto__'', JObj [(''recency'', JStr ''all'')])]"
  let ?all = "\<lparr>question = ''What is exposure therapy?'', citationStyle = ''apa'',
         citationMode = ''balanced'', recency = ''all'', materials = []\<rparr>"
  let ?ten = "\<lparr>question = ''What is exposure therapy?'', citationStyle = ''apa'',
         citationMode = ''balanced'', recency = ''10'', materials = []\<rparr>"
  have a: "supplies_defaults [''recency''] ?kvs" by code_simp
  have b: "chatSchema_validate (Some (JObj ?kvs)) = Inr (Some ?ten)" by code_simp
  have c: "chatSchema_validate (Some (JObj (omit [''recency''] ?kvs))) = Inr (Some ?all)" by code_simp
  have d: "systemPrompt ?all \<noteq> systemPrompt ?ten"
    using systemPrompt_recency_differs [of ?ten "''all''"] by (simp add: recency_clause_def)
  show ?thesis using a b c d by blast
qed

text \<open>
  C6. The recency clause.  The recency of a validated request is one of \<open>"5"\<close>,
  \<open>"10"\<close>, \<open>"15"\<close>, \<open>"all"\<close>.  For \<open>"all"\<close> the system instruction contains
  "no hard limit, but flag older work"; for the other three it contains "focus on roughly
  the last ", the recency value and " years of research".
\<close>

theorem recency_clause_rendered:
  assumes "chatSchema_validate body = Inr (Some v)"
  shows "recency v \<in> {''5'', ''10'', ''15'', ''all''}
    \<and> (recency v = ''all'' \<longrightarrow> str_includes (systemPrompt v) ''no hard limit, but flag older work'')
    \<and> (recency v \<in> {''5'', ''10'', ''15''} \<longrightarrow>
         str_includes (systemPrompt v) (''focus on roughly the last '' @ recency v @ '' years of research''))"
proof -
  obtain kvs where "body = Some (JObj kvs)" using validated_is_object [OF assms] by blast
  then have "recency v \<in> {''5'', ''10'', ''15'', ''all''}"
    using validated_recency [of kvs v] assms by simp
  moreover have "recency v = ''all'' \<longrightarrow> str_includes (systemPrompt v) ''no hard limit, but flag older work''"
    using prompt_recency_clause [of v] by (auto simp: recency_clause_def)
  moreover have "recency v \<in> {''5'', ''10'', ''15''} \<longrightarrow>
      str_includes (systemPrompt v) (''focus on roughly the last '' @ recency v @ '' years of research'')"
    using prompt_recency_clause [of v] by (auto simp: recency_clause_def)
  ultimately show ?thesis by blast
qed

theorem recency_clause_rendered_witness:
  "str_includes (systemPrompt \<lparr>question = ''What is exposure therapy?'', citationStyle = ''apa'',
      citationMode = ''balanced'', recency = ''all'', materials = []\<rparr>) ''no hard limit, but flag older work''
   \<and> str_includes (systemPrompt \<lparr>question = ''What is exposure therapy?'', citationStyle = ''apa'',
      citationMode = ''balanced'', recency = ''5'', materials = []\<rparr>) ''focus on roughly the last 5 years of research''"
proof -
  have a: "chatSchema_validate (Some (JObj [(''question'', JStr ''What is exposure therapy?''), (''recency'', JStr ''all'')]))
    = Inr (Some \<lparr>question = ''What is exposure therapy?'', citationStyle = ''apa'',
      citationMode = ''balanced'', recency = ''all'', materials = []\<rparr>)"
    by code_simp
  have b: "chatSchema_validate (Some (JObj [(''question'', JStr ''What is exposure therapy?''), (''recency'', JStr ''5'')]))
    = Inr (Some \<lparr>question = ''What is exposure therapy?'', citationStyle = ''apa'',
      citationMode = ''balanced'', recency = ''5'', materials = []\<rparr>)"
    by code_simp
  show ?thesis
    using recency_clause_rendered [OF a] recency_clause_rendered [OF b] by simp
qed

text \<open>
  C7. The materials clause.  For a validated request with materials the system
  instruction contains, under the heading "Course materials:", the line that announces
  them and then one entry per material, in order, each on its own line after "  - "; with
  no materials it contains the fixed sentence.  The materials of the validated request
  are the strings of the body's \<open>materials\<close>, in order, or none when the key is absent.
\<close>

theorem materials_clause_rendered:
  assumes "chatSchema_validate (Some (JObj kvs)) = Inr (Some v)"
  shows "(materials v \<noteq> [] \<longrightarrow>
       str_includes (systemPrompt v)
         (''Course materials:\<newline>- User has indicated the following course materials:'' @ bullets (materials v)))
    \<and> (materials v = [] \<longrightarrow>
       str_includes (systemPrompt v)
         ''Course materials:\<newline>- No specific course materials listed in this request.'')
    \<and> (get_prop kvs ''materials'' = None \<and> materials v = []
       \<or> get_prop kvs ''materials'' = Some (JArr (map JStr (materials v))))"
proof -
  have "materials v \<noteq> [] \<longrightarrow>
       str_includes (systemPrompt v)
         (''Course materials:\<newline>- User has indicated the following course materials:'' @ bullets (materials v))"
    using prompt_materials_section [of v] by (auto simp: materials_clause_nonempty)
  moreover have "materials v = [] \<longrightarrow>
       str_includes (systemPrompt v)
         ''Course materials:\<newline>- No specific course materials listed in this request.''"
    using prompt_materials_section [of v] by (auto simp: materials_clause_def)
  ultimately show ?thesis
    using validated_materials [OF assms] by blast
qed

theorem materials_clause_rendered_witness:
  "str_includes
     (systemPrompt \<lparr>question = ''What is exposure therapy?'', citationStyle = ''apa'',
        citationMode = ''balanced'', recency = ''10'',
        materials = [''Kring et al., 2021'', ''DSM-5-TR'']\<rparr>)
     ''Course materials:\<newline>- User has indicated the following course materials:\<newline>  - Kring et al., 2021\<newline>  - DSM-5-TR''
   \<and> str_includes
     (systemPrompt \<lparr>question = ''What is exposure therapy?'', citationStyle = ''apa'',
        citationMode = ''balanced'', recency = ''10'', materials = []\<rparr>)
     ''Course materials:\<newline>- No specific course materials listed in this request.''"
proof -
  have a: "chatSchema_validate (Some (JObj [(''question'', JStr ''What is exposure therapy?''),
      (''materials'', JArr [JStr ''Kring et al., 2021'', JStr ''DSM-5-TR''])]))
    = Inr (Some \<lparr>question = ''What is exposure therapy?'', citationStyle = ''apa'',
        citationMode = ''balanced'', recency = ''10'',
        materials = [''Kring et al., 2021'', ''DSM-5-TR'']\<rparr>)"
    by code_simp
  show ?thesis
    using materials_clause_rendered [OF a] materials_clause_rendered [OF example_valid]
    by (simp add: bullets_def)
qed

text \<open>
  C8. The ingestion script keeps the fragments of more than 50 characters.  For a file
  whose name ends in \<open>.txt\<close>, the texts upserted are the pieces of the file's text between
  the separators \<open>"\n\n"\<close> that have at least 51 characters, in order; each is embedded by
  the remote service; and the pieces joined by the separator give the text back.  A
  fragment of exactly 50 characters is dropped, as the example after the theorem shows.
\<close>

theorem seed_chunks_threshold:
  "map u_text (seed_file generateEmbedding (name @ ''.txt'') text)
     = filter (\<lambda>c. 51 \<le> length c) (split_str text ''\<newline>\<newline>'')
   \<and> map u_values (seed_file generateEmbedding (name @ ''.txt'') text)
     = map generateEmbedding (filter (\<lambda>c. 51 \<le> length c) (split_str text ''\<newline>\<newline>''))
   \<and> join (split_str text ''\<newline>\<newline>'') ''\<newline>\<newline>'' = text"
proof -
  have s: "suffix ''.txt'' (name @ ''.txt'')"
    by (rule suffix_appendI) simp
  show ?thesis
    using seed_file_texts [OF s, of generateEmbedding "text"]
      seed_file_values [OF s, of generateEmbedding "text"] join_split_str [of "''\<newline>\<newline>''" "text"]
    by (simp add: seed_chunks_51)
qed

theorem seed_fifty_counterexample:
  "replicate 50 (CHR ''a'') \<in> set (split_str (replicate 50 (CHR ''a'')) ''\<newline>\<newline>'')
   \<and> 50 \<le> length (replicate 50 (CHR ''a''))
   \<and> seed_file (\<lambda>c. length c) ''notes.txt'' (replicate 50 (CHR ''a'')) = []"
  by code_simp

text \<open>
  C9. A key that the schema does not declare, other than \<open>__proto__\<close>, fails
  validation, whatever the declared fields hold: the handler answers 400 with
  \<open>{error: "Validation failed", details}\<close>, and \<open>details\<close> holds the message
  \<open>"key" is not allowed\<close> that names the key; for the empty key the message reads
  \<open>"value" is not allowed\<close>.  The key \<open>__proto__\<close> is not reported: a body that is valid
  apart from it is accepted, as the example after the theorem shows.
\<close>

theorem unknown_key_rejected:
  assumes \<open>k \<in> fst ` set kvs\<close> and \<open>k \<notin> set schema_keys\<close> and \<open>k \<noteq> ''__proto__''\<close>
  shows \<open>chatSchema_validate (Some (JObj kvs)) = Inl (schema_errors kvs)
    \<and> chat_handler generateText (Some (JObj kvs)) =
        \<lparr>sent = Some (validation_failed (schema_errors kvs)), calls = []\<rparr>
    \<and> (''"'' @ (if k = [] then ''value'' else k) @ ''" is not allowed'')
        \<in> d_message ` set (schema_errors kvs)\<close>
proof -
  have e: "create_error [] ''object.unknown'' [Key k] [] \<in> set (schema_errors kvs)"
    using assms by (rule unknown_key_error)
  then have "schema_errors kvs \<noteq> []" by auto
  then have v: "chatSchema_validate (Some (JObj kvs)) = Inl (schema_errors kvs)"
    by (rule validate_fails)
  have \<open>(''"'' @ (if k = [] then ''value'' else k) @ ''" is not allowed'')
      \<in> d_message ` set (schema_errors kvs)\<close>
    using e unknown_key_message [of k] by (metis image_eqI)
  then show ?thesis using v handler_on_failure [OF v] by blast
qed

theorem unknown_key_rejected_witness:
  \<open>\<exists>ds. chat_handler (\<lambda>s p. Never)
        (Some (JObj [(''question'', JStr ''What is exposure therapy?''), (''citationStyle'', JStr ''mla''),
               (''citationMode'', JStr ''strict''), (''recency'', JStr ''15''),
               (''materials'', JArr [JStr ''Kring et al., 2021'']), (''sessionId'', JNum 7)]))
        = \<lparr>sent = Some (validation_failed ds), calls = []\<rparr>
      \<and> ''"sessionId" is not allowed'' \<in> d_message ` set ds\<close>
proof -
  let ?kvs = "[(''question'', JStr ''What is exposure therapy?''), (''citationStyle'', JStr ''mla''),
               (''citationMode'', JStr ''strict''), (''recency'', JStr ''15''),
               (''materials'', JArr [JStr ''Kring et al., 2021'']), (''sessionId'', JNum 7)]"
  have k: "''sessionId'' \<in> fst ` set ?kvs" by simp
  have n: "''sessionId'' \<notin> set schema_keys" by (simp add: schema_keys_def)
  have p: "''sessionId'' \<noteq> ''__proto__''" by simp
  show ?thesis
    using unknown_key_rejected [OF k n p, of "\<lambda>s p. Never"] by auto
qed

theorem unknown_key_counterexample:
  \<open>chat_handler (\<lambda>s p. Settles 800 (Fulfilled ''an answer''))
      (Some (JObj [(''question'', JStr ''What is exposure therapy?''),
                   (''__proto__'', JObj [(''role'', JStr ''admin'')])]))
     = \<lparr>sent = Some \<lparr>res_status = 200, res_body = JObj [(''answer'', JStr ''an answer'')]\<rparr>,
        calls = [(systemPrompt \<lparr>question = ''What is exposure therapy?'', citationStyle = ''apa'',
                    citationMode = ''balanced'', recency = ''10'', materials = []\<rparr>,
                  ''What is exposure therapy?'')]\<rparr>
   \<and> chat_handler (\<lambda>s p. Settles 800 (Fulfilled ''an answer''))
      (Some (JObj [(''question'', JStr ''What is exposure therapy?''), ([], JNum 1)]))
     = \<lparr>sent = Some \<lparr>res_status = 400,
          res_body = JObj [(''error'', JStr ''Validation failed''),
                           (''details'', JArr [JStr ''"value" is not allowed''])]\<rparr>,
        calls = []\<rparr>\<close>
proof -
  have a: "chatSchema_validate (Some (JObj [(''question'', JStr ''What is exposure therapy?''),
      (''__proto__'', JObj [(''role'', JStr ''admin'')])]))
    = Inr (Some \<lparr>question = ''What is exposure therapy?'', citationStyle = ''apa'',
         citationMode = ''balanced'', recency = ''10'', materials = []\<rparr>)"
    by code_simp
  have b: \<open>chatSchema_validate (Some (JObj [(''question'', JStr ''What is exposure therapy?''), ([], JNum 1)]))
    = Inl [\<lparr>d_message = ''"value" is not allowed'', d_path = [Key []], d_type = ''object.unknown''\<rparr>]\<close>
    by code_simp
  have r: "Promise_race [(1, Settles 800 (Fulfilled ''an answer'')), (0, timeoutPromise)]
      = Settles 800 (Fulfilled ''an answer'')"
    unfolding race_timeout by simp
  show ?thesis
    using r by (simp add: chat_handler_def a b)
qed

text \<open>
  C10. The option fields take strings only.  A body whose \<open>recency\<close> is a JSON number
  fails validation: the handler answers 400 with the message of the recency rule in
  \<open>details\<close>; the same holds for \<open>citationStyle\<close> and \<open>citationMode\<close>.  In a body that
  passes validation each of the three is absent or one of its allowed strings.
\<close>

theorem non_string_option_rejected:
  "(get_prop kvs ''recency'' = Some (JNum n) \<longrightarrow>
      (\<exists>ds. chat_handler generateText (Some (JObj kvs)) = \<lparr>sent = Some (validation_failed ds), calls = []\<rparr>
        \<and> ''Recency must be one of: 5, 10, 15, all'' \<in> d_message ` set ds))
   \<and> (get_prop kvs ''citationStyle'' = Some (JNum n) \<longrightarrow>
      (\<exists>ds. chat_handler generateText (Some (JObj kvs)) = \<lparr>sent = Some (validation_failed ds), calls = []\<rparr>
        \<and> ''Citation style must be one of: apa, mla, chicago'' \<in> d_message ` set ds))
   \<and> (get_prop kvs ''citationMode'' = Some (JNum n) \<longrightarrow>
      (\<exists>ds. chat_handler generateText (Some (JObj kvs)) = \<lparr>sent = Some (validation_failed ds), calls = []\<rparr>
        \<and> ''Citation mode must be one of: strict, balanced, flexible'' \<in> d_message ` set ds))
   \<and> (chatSchema_validate (Some (JObj kvs)) = Inr (Some v) \<longrightarrow>
        get_prop kvs ''recency'' \<in>
          {None, Some (JStr ''5''), Some (JStr ''10''), Some (JStr ''15''), Some (JStr ''all'')}
        \<and> get_prop kvs ''citationStyle'' \<in>
          {None, Some (JStr ''apa''), Some (JStr ''mla''), Some (JStr ''chicago'')}
        \<and> get_prop kvs ''citationMode'' \<in>
          {None, Some (JStr ''strict''), Some (JStr ''balanced''), Some (JStr ''flexible'')})"
proof (intro conjI impI)
  assume "get_prop kvs ''recency'' = Some (JNum n)"
  then have "''Recency must be one of: 5, 10, 15, all'' \<in> set (violated_rules kvs)"
    by (simp add: violated_rules_def)
  then show "\<exists>ds. chat_handler generateText (Some (JObj kvs)) = \<lparr>sent = Some (validation_failed ds), calls = []\<rparr>
        \<and> ''Recency must be one of: 5, 10, 15, all'' \<in> d_message ` set ds"
    by (rule violated_rule_answered)
next
  assume "get_prop kvs ''citationStyle'' = Some (JNum n)"
  then have "''Citation style must be one of: apa, mla, chicago'' \<in> set (violated_rules kvs)"
    by (simp add: violated_rules_def)
  then show "\<exists>ds. chat_handler generateText (Some (JObj kvs)) = \<lparr>sent = Some (validation_failed ds), calls = []\<rparr>
        \<and> ''Citation style must be one of: apa, mla, chicago'' \<in> d_message ` set ds"
    by (rule violated_rule_answered)
next
  assume "get_prop kvs ''citationMode'' = Some (JNum n)"
  then have "''Citation mode must be one of: strict, balanced, flexible'' \<in> set (violated_rules kvs)"
    by (simp add: violated_rules_def)
  then show "\<exists>ds. chat_handler generateText (Some (JObj kvs)) = \<lparr>sent = Some (validation_failed ds), calls = []\<rparr>
        \<and> ''Citation mode must be one of: strict, balanced, flexible'' \<in> d_message ` set ds"
    by (rule violated_rule_answered)
next
  assume v: "chatSchema_validate (Some (JObj kvs)) = Inr (Some v)"
  show "get_prop kvs ''recency'' \<in>
      {None, Some (JStr ''5''), Some (JStr ''10''), Some (JStr ''15''), Some (JStr ''all'')}"
    using validated_recency [OF v] by auto
  show "get_prop kvs ''citationStyle'' \<in>
      {None, Some (JStr ''apa''), Some (JStr ''mla''), Some (JStr ''chicago'')}"
    using validated_citationStyle [OF v] by auto
  show "get_prop kvs ''citationMode'' \<in>
      {None, Some (JStr ''strict''), Some (JStr ''balanced''), Some (JStr ''flexible'')}"
    using validated_citationMode [OF v] by auto
qed

theorem non_string_option_rejected_witness:
  "(\<exists>ds. chat_handler (\<lambda>s p. Never)
        (Some (JObj [(''question'', JStr ''What is exposure therapy?''), (''recency'', JNum 10)]))
        = \<lparr>sent = Some (validation_failed ds), calls = []\<rparr>
      \<and> ''Recency must be one of: 5, 10, 15, all'' \<in> d_message ` set ds)
   \<and> (\<exists>ds. chat_handler (\<lambda>s p. Never)
        (Some (JObj [(''question'', JStr ''What is exposure therapy?''), (''citationStyle'', JNum 10)]))
        = \<lparr>sent = Some (validation_failed ds), calls = []\<rparr>
      \<and> ''Citation style must be one of: apa, mla, chicago'' \<in> d_message ` set ds)
   \<and> (\<exists>ds. chat_handler (\<lambda>s p. Never)
        (Some (JObj [(''question'', JStr ''What is exposure therapy?''), (''citationMode'', JNum 10)]))
        = \<lparr>sent = Some (validation_failed ds), calls = []\<rparr>
      \<and> ''Citation mode must be one of: strict, balanced, flexible'' \<in> d_message ` set ds)
   \<and> get_prop [(''question'', JStr ''What is exposure therapy?'')] ''recency'' \<in>
          {None, Some (JStr ''5''), Some (JStr ''10''), Some (JStr ''15''), Some (JStr ''all'')}"
proof -
  let ?q = "(''question'', JStr ''What is exposure therapy?'')"
  have r: "get_prop [?q, (''recency'', JNum 10)] ''recency'' = Some (JNum 10)"
    "get_prop [?q, (''citationStyle'', JNum 10)] ''citationStyle'' = Some (JNum 10)"
    "get_prop [?q, (''citationMode'', JNum 10)] ''citationMode'' = Some (JNum 10)"
    by (simp_all add: get_prop_def own_props_def proto_props_def)
  have a: "\<exists>ds. chat_handler (\<lambda>s p. Never) (Some (JObj [?q, (''recency'', JNum 10)]))
        = \<lparr>sent = Some (validation_failed ds), calls = []\<rparr>
      \<and> ''Recency must be one of: 5, 10, 15, all'' \<in> d_message ` set ds"
    using non_string_option_rejected [of "[?q, (''recency'', JNum 10)]" 10 "\<lambda>s p. Never"] r(1)
    by blast
  have b: "\<exists>ds. chat_handler (\<lambda>s p. Never) (Some (JObj [?q, (''citationStyle'', JNum 10)]))
        = \<lparr>sent = Some (validation_failed ds), calls = []\<rparr>
      \<and> ''Citation style must be one of: apa, mla, chicago'' \<in> d_message ` set ds"
    using non_string_option_rejected [of "[?q, (''citationStyle'', JNum 10)]" 10 "\<lambda>s p. Never"] r(2)
    by blast
  have c: "\<exists>ds. chat_handler (\<lambda>s p. Never) (Some (JObj [?q, (''citationMode'', JNum 10)]))
        = \<lparr>sent = Some (validation_failed ds), calls = []\<rparr>
      \<and> ''Citation mode must be one of: strict, balanced, flexible'' \<in> d_message ` set ds"
    using non_string_option_rejected [of "[?q, (''citationMode'', JNum 10)]" 10 "\<lambda>s p. Never"] r(3)
    by blast
  have d: "get_prop [?q] ''recency'' \<in>
          {None, Some (JStr ''5''), Some (JStr ''10''), Some (JStr ''15''), Some (JStr ''all'')}"
    using non_string_option_rejected [of "[?q]" 0 "\<lambda>s p. Never"
        "\<lparr>question = ''What is exposure therapy?'', citationStyle = ''apa'',
         citationMode = ''balanced'', recency = ''10'', materials = []\<rparr>"] example_valid
    by blast
  show ?thesis using a b c d by blast
qed

end
